theory Spec2Isabelle
  imports Complex_Main "HOL-Library.Log_Nat" "HOL-Library.AList" "HOL-Library.Sublist"
begin

section \<open>Python values used by \<open>read_sensor_data.py\<close>\<close>

text \<open>
  The script is sequential Python. Every exception it can meet is a value of \<open>exn\<close>; a
  function that may raise returns \<open>exn + 'a\<close> with \<open>Inl\<close> for the raise. The body of a
  \<^verbatim>\<open>try\<close> block returns the world it reached together with the exception, because what it
  did before raising stays done.
\<close>

datatype exn =
    TypeError | ValueError | AttributeError | ZeroDivisionError | OverflowError
  | FileNotFoundError | FileExistsError | NotADirectoryError | IsADirectoryError
  | OSError | APIError | DriverError

subsection \<open>Floats\<close>

text \<open>
  A Python float is an IEEE 754 binary64 value: a sign with a magnitude, an infinity or a
  NaN. The magnitude of a finite float is kept as the rational it denotes. \<open>fl\<close> rounds a
  non-negative rational to the nearest binary64 magnitude, ties to even, with the exponent
  unbounded above; \<open>mk_float\<close> turns what exceeds the largest finite float into an infinity.
\<close>

datatype pyfloat = Finite bool rat | Infinity bool | NaN

definition pow2 :: "int \<Rightarrow> rat" where
  "pow2 e = (if 0 \<le> e then of_int (2 ^ nat e) else 1 / of_int (2 ^ nat (- e)))"

definition ilog2 :: "rat \<Rightarrow> int" where
  "ilog2 q = (let k = bitlen (fst (quotient_of q)) - bitlen (snd (quotient_of q))
              in if q < pow2 k then k - 1 else k)"

definition round_half_even :: "rat \<Rightarrow> int" where
  "round_half_even q =
     (let f = \<lfloor>q\<rfloor>; d = q - of_int f
      in if d < 1 / 2 then f else if 1 / 2 < d then f + 1
         else if even f then f else f + 1)"

definition fl :: "rat \<Rightarrow> rat" where
  "fl q = (if q \<le> 0 then 0
           else let p = max (ilog2 q - 52) (- 1074)
                in of_int (round_half_even (q / pow2 p)) * pow2 p)"

definition mk_float :: "bool \<Rightarrow> rat \<Rightarrow> pyfloat" where
  "mk_float s q = (let r = fl q in if pow2 1024 \<le> r then Infinity s else Finite s r)"

text \<open>The float a numeric literal denotes (\<^verbatim>\<open>9\<close>, \<^verbatim>\<open>5\<close>, \<^verbatim>\<open>32\<close>, \<^verbatim>\<open>60.0\<close>, \<^verbatim>\<open>120.0\<close>, \<^verbatim>\<open>21.4\<close>).\<close>

definition py_float :: "rat \<Rightarrow> pyfloat" where
  "py_float q = mk_float (q < 0) \<bar>q\<bar>"

fun is_zero :: "pyfloat \<Rightarrow> bool" where
  "is_zero (Finite s m) = (m = 0)"
| "is_zero _ = False"

text \<open>\<^verbatim>\<open>x < 0\<close>: false for both zeros and for NaN.\<close>

fun is_neg :: "pyfloat \<Rightarrow> bool" where
  "is_neg (Finite s m) = (s \<and> m \<noteq> 0)"
| "is_neg (Infinity s) = s"
| "is_neg NaN = False"

fun sign_bit :: "pyfloat \<Rightarrow> bool" where
  "sign_bit (Finite s m) = s"
| "sign_bit (Infinity s) = s"
| "sign_bit NaN = False"

fun float_neg :: "pyfloat \<Rightarrow> pyfloat" where
  "float_neg (Finite s m) = Finite (\<not> s) m"
| "float_neg (Infinity s) = Infinity (\<not> s)"
| "float_neg NaN = NaN"

fun float_mul :: "pyfloat \<Rightarrow> pyfloat \<Rightarrow> pyfloat" where
  "float_mul (Finite s1 m1) (Finite s2 m2) = mk_float (s1 \<noteq> s2) (m1 * m2)"
| "float_mul (Finite s1 m1) (Infinity s2) = (if m1 = 0 then NaN else Infinity (s1 \<noteq> s2))"
| "float_mul (Infinity s1) (Finite s2 m2) = (if m2 = 0 then NaN else Infinity (s1 \<noteq> s2))"
| "float_mul (Infinity s1) (Infinity s2) = Infinity (s1 \<noteq> s2)"
| "float_mul NaN _ = NaN"
| "float_mul _ NaN = NaN"

text \<open>The division of the hardware; Python's \<^verbatim>\<open>/\<close> is \<open>py_truediv\<close> below.\<close>

fun float_div :: "pyfloat \<Rightarrow> pyfloat \<Rightarrow> pyfloat" where
  "float_div (Finite s1 m1) (Finite s2 m2) =
     (if m2 = 0 then (if m1 = 0 then NaN else Infinity (s1 \<noteq> s2))
      else mk_float (s1 \<noteq> s2) (m1 / m2))"
| "float_div (Finite s1 m1) (Infinity s2) = Finite (s1 \<noteq> s2) 0"
| "float_div (Infinity s1) (Finite s2 m2) = Infinity (s1 \<noteq> s2)"
| "float_div (Infinity s1) (Infinity s2) = NaN"
| "float_div NaN _ = NaN"
| "float_div _ NaN = NaN"

definition py_truediv :: "pyfloat \<Rightarrow> pyfloat \<Rightarrow> exn + pyfloat" where
  "py_truediv x y = (if is_zero y then Inl ZeroDivisionError else Inr (float_div x y))"

definition signed :: "bool \<Rightarrow> rat \<Rightarrow> rat" where
  "signed s m = (if s then - m else m)"

fun float_add :: "pyfloat \<Rightarrow> pyfloat \<Rightarrow> pyfloat" where
  "float_add (Finite s1 m1) (Finite s2 m2) =
     (let v = signed s1 m1 + signed s2 m2
      in if v = 0 then Finite (s1 \<and> s2) 0 else mk_float (v < 0) \<bar>v\<bar>)"
| "float_add (Finite s1 m1) (Infinity s2) = Infinity s2"
| "float_add (Infinity s1) (Finite s2 m2) = Infinity s1"
| "float_add (Infinity s1) (Infinity s2) = (if s1 = s2 then Infinity s1 else NaN)"
| "float_add NaN _ = NaN"
| "float_add _ NaN = NaN"

definition float_sub :: "pyfloat \<Rightarrow> pyfloat \<Rightarrow> pyfloat" where
  "float_sub x y = float_add x (float_neg y)"

text \<open>C's \<^verbatim>\<open>fmod\<close> for a divisor that is not zero: exact, with the sign of the dividend.\<close>

fun fmod :: "pyfloat \<Rightarrow> pyfloat \<Rightarrow> pyfloat" where
  "fmod (Finite s1 m1) (Finite s2 m2) = Finite s1 (m1 - of_int \<lfloor>m1 / m2\<rfloor> * m2)"
| "fmod (Finite s1 m1) (Infinity s2) = Finite s1 m1"
| "fmod (Infinity s1) _ = NaN"
| "fmod NaN _ = NaN"
| "fmod _ NaN = NaN"

text \<open>
  Python's \<^verbatim>\<open>%\<close> on floats (\<^verbatim>\<open>float_rem\<close> of CPython): \<^verbatim>\<open>fmod\<close>, then the divisor is added
  when the remainder is not zero and its sign differs from the divisor's; a zero remainder
  takes the divisor's sign.
\<close>

definition py_mod :: "pyfloat \<Rightarrow> pyfloat \<Rightarrow> exn + pyfloat" where
  "py_mod vx wx =
     (if is_zero wx then Inl ZeroDivisionError
      else let m = fmod vx wx
           in if \<not> is_zero m
              then (if is_neg wx \<noteq> is_neg m then Inr (float_add m wx) else Inr m)
              else Inr (Finite (sign_bit wx) 0))"

text \<open>
  \<^verbatim>\<open>round(x, 1)\<close>: the decimal with one fractional digit nearest to the exact value of
  \<open>x\<close> (ties to even), read back as a float; infinities and NaN round to themselves.
\<close>

fun py_round1 :: "pyfloat \<Rightarrow> pyfloat" where
  "py_round1 (Finite s m) = mk_float s (of_int (round_half_even (m * 10)) / 10)"
| "py_round1 x = x"

subsection \<open>Strings\<close>

function str_nat :: "nat \<Rightarrow> string" where
  "str_nat n = (if n < 10 then [char_of (48 + n)] else str_nat (n div 10) @ [char_of (48 + n mod 10)])"
  by pat_completeness auto
termination
  by (relation "measure (\<lambda>n. n)") auto

declare str_nat.simps [simp del]

text \<open>\<^verbatim>\<open>'{:0.1f}'.format(x)\<close>: the same decimal, printed with its sign.\<close>

fun format_f1 :: "pyfloat \<Rightarrow> string" where
  "format_f1 (Finite s m) =
     (let n = nat (round_half_even (m * 10))
      in (if s then ''-'' else '''') @ str_nat (n div 10) @ ''.'' @ str_nat (n mod 10))"
| "format_f1 (Infinity s) = (if s then ''-inf'' else ''inf'')"
| "format_f1 NaN = ''nan''"

text \<open>\<^verbatim>\<open>'{}'.format(x)\<close> for the value of \<^verbatim>\<open>dict.get\<close>: a string or \<^verbatim>\<open>None\<close>.\<close>

definition format_str_opt :: "string option \<Rightarrow> string" where
  "format_str_opt x = (case x of None \<Rightarrow> ''None'' | Some s \<Rightarrow> s)"

subsection \<open>Time\<close>

record struct_time =
  tm_year :: nat
  tm_mon :: nat
  tm_mday :: nat
  tm_hour :: nat
  tm_min :: nat
  tm_sec :: nat

definition pad2 :: "nat \<Rightarrow> string" where
  "pad2 n = (if n < 10 then ''0'' @ str_nat n else str_nat n)"

text \<open>\<^verbatim>\<open>time.strftime('%Y-%m-%d', t)\<close> and \<^verbatim>\<open>time.strftime('%H:%M:%S', t)\<close>.\<close>

definition strftime_date :: "struct_time \<Rightarrow> string" where
  "strftime_date t = str_nat (tm_year t) @ ''-'' @ pad2 (tm_mon t) @ ''-'' @ pad2 (tm_mday t)"

definition strftime_clock :: "struct_time \<Rightarrow> string" where
  "strftime_clock t = pad2 (tm_hour t) @ '':'' @ pad2 (tm_min t) @ '':'' @ pad2 (tm_sec t)"

subsection \<open>Paths\<close>

abbreviation SEP :: char where "SEP \<equiv> CHR ''/''"
abbreviation DOT :: char where "DOT \<equiv> CHR ''.''"
abbreviation TAB :: char where "TAB \<equiv> CHR 0x09"
abbreviation LF :: char where "LF \<equiv> CHR 0x0A"
abbreviation CR :: char where "CR \<equiv> CHR 0x0D"

text \<open>\<^verbatim>\<open>os.path.join(a, b)\<close>, \<^verbatim>\<open>os.path.split(p)\<close>, \<^verbatim>\<open>os.path.basename(p)\<close> of POSIX.\<close>

definition os_path_join :: "string \<Rightarrow> string \<Rightarrow> string" where
  "os_path_join a b =
     (if b \<noteq> [] \<and> hd b = SEP then b
      else if a = [] \<or> last a = SEP then a @ b
      else a @ [SEP] @ b)"

definition os_path_basename :: "string \<Rightarrow> string" where
  "os_path_basename p = rev (takeWhile (\<lambda>c. c \<noteq> SEP) (rev p))"

definition os_path_split :: "string \<Rightarrow> string \<times> string" where
  "os_path_split p =
     (let head = rev (dropWhile (\<lambda>c. c \<noteq> SEP) (rev p))
      in (if head \<noteq> [] \<and> (\<exists>c \<in> set head. c \<noteq> SEP)
          then rev (dropWhile (\<lambda>c. c = SEP) (rev head)) else head,
          os_path_basename p))"

text \<open>
  \<^verbatim>\<open>os.path.splitext(b)[0]\<close> for a name \<open>b\<close> without separator: the part before the last
  dot, when a character other than a dot comes before that dot; otherwise all of \<open>b\<close>.
\<close>

definition splitext_root :: "string \<Rightarrow> string" where
  "splitext_root b =
     (case dropWhile (\<lambda>c. c \<noteq> DOT) (rev b) of
        [] \<Rightarrow> b
      | d # pre \<Rightarrow> if \<exists>c \<in> set pre. c \<noteq> DOT then rev pre else b)"

text \<open>\<^verbatim>\<open>s in t\<close> on strings: \<open>s\<close> occurs in \<open>t\<close> as a contiguous substring.\<close>

fun py_in :: "string \<Rightarrow> string \<Rightarrow> bool" where
  "py_in s [] = (s = [])"
| "py_in s (c # cs) = (prefix s (c # cs) \<or> py_in s cs)"

fun split_on :: "char \<Rightarrow> string \<Rightarrow> string \<Rightarrow> string list" where
  "split_on sep cur [] = [cur]"
| "split_on sep cur (c # cs) =
     (if c = sep then cur # split_on sep [] cs else split_on sep (cur @ [c]) cs)"

section \<open>The world outside the script\<close>

subsection \<open>File system\<close>

text \<open>
  The file system lists every existing path, as its components from the root, with what
  is there, in the order in which a directory scan returns the entries. The root always
  exists; the parent of a listed path is a listed directory. A path string is resolved by
  its components (no \<^verbatim>\<open>.\<close>, \<^verbatim>\<open>..\<close> or symbolic links); a relative path is resolved from the
  root, where the model places the working directory. File contents are ASCII.
\<close>

type_synonym path = "string list"

datatype node = Dir | File string

type_synonym filesystem = "(path \<times> node) list"

definition components :: "string \<Rightarrow> path" where
  "components p = filter (\<lambda>c. c \<noteq> []) (split_on SEP [] p)"

definition exists :: "filesystem \<Rightarrow> path \<Rightarrow> bool" where
  "exists fs p = (p = [] \<or> map_of fs p \<noteq> None)"

definition is_dir :: "filesystem \<Rightarrow> path \<Rightarrow> bool" where
  "is_dir fs p = (p = [] \<or> map_of fs p = Some Dir)"

definition listdir :: "filesystem \<Rightarrow> path \<Rightarrow> string list" where
  "listdir fs d = map (\<lambda>e. last (fst e)) (filter (\<lambda>e. fst e \<noteq> [] \<and> butlast (fst e) = d) fs)"

definition has_magic :: "string \<Rightarrow> bool" where
  "has_magic s = (\<exists>c \<in> set s. c = CHR ''*'' \<or> c = CHR ''?'' \<or> c = CHR ''['')"

text \<open>
  \<^verbatim>\<open>glob.glob(prefix + '*')\<close> for a \<open>prefix\<close> without the pattern characters
  \<^verbatim>\<open>*\<close>, \<^verbatim>\<open>?\<close>, \<^verbatim>\<open>[\<close>: the pattern is split at its last separator; the entries of that
  directory whose name starts with the rest of the prefix are returned, each joined to the
  directory part, in scan order. A name starting with a dot is returned only if the
  pattern's last component starts with a dot. A directory that cannot be scanned gives
  the empty list.
\<close>

definition glob_star :: "filesystem \<Rightarrow> string \<Rightarrow> string list" where
  "glob_star fs pre =
     (let (dirname, basename) = os_path_split (pre @ ''*'');
          name_prefix = butlast basename
      in if \<not> is_dir fs (components dirname) then []
         else map (os_path_join dirname)
                (filter (\<lambda>name. prefix name_prefix name \<and> (hd basename = DOT \<or> hd name \<noteq> DOT))
                   (listdir fs (components dirname))))"

text \<open>\<^verbatim>\<open>open(p, 'r')\<close> followed by reading the whole file.\<close>

definition open_read :: "filesystem \<Rightarrow> string \<Rightarrow> exn + string" where
  "open_read fs p =
     (if components p = [] then Inl IsADirectoryError
      else case map_of fs (components p) of
             None \<Rightarrow> Inl FileNotFoundError
           | Some Dir \<Rightarrow> Inl IsADirectoryError
           | Some (File content) \<Rightarrow> Inr content)"

definition mkdir :: "filesystem \<Rightarrow> path \<Rightarrow> exn + filesystem" where
  "mkdir fs p =
     (if exists fs p then Inl FileExistsError
      else if is_dir fs (butlast p) then Inr (fs @ [(p, Dir)])
      else if exists fs (butlast p) then Inl NotADirectoryError
      else Inl FileNotFoundError)"

text \<open>
  \<^verbatim>\<open>os.makedirs(name)\<close>, on the reversed components of \<open>name\<close>: a missing parent is made
  first (a \<^verbatim>\<open>FileExistsError\<close> from there is ignored), then the directory itself.
\<close>

fun makedirs_rev :: "filesystem \<Rightarrow> path \<Rightarrow> exn + filesystem" where
  "makedirs_rev fs [] = mkdir fs []"
| "makedirs_rev fs (c # rp) =
     (if rp \<noteq> [] \<and> \<not> exists fs (rev rp)
      then (case makedirs_rev fs rp of
              Inl e \<Rightarrow> if e = FileExistsError then mkdir fs (rev (c # rp)) else Inl e
            | Inr fs' \<Rightarrow> mkdir fs' (rev (c # rp)))
      else mkdir fs (rev (c # rp)))"

definition makedirs :: "filesystem \<Rightarrow> path \<Rightarrow> exn + filesystem" where
  "makedirs fs p = makedirs_rev fs (rev p)"

text \<open>\<^verbatim>\<open>open(p, 'a+')\<close>: the file is created empty when it is not there.\<close>

definition open_append :: "filesystem \<Rightarrow> path \<Rightarrow> exn + filesystem" where
  "open_append fs p =
     (if p = [] then Inl IsADirectoryError
      else case map_of fs p of
             Some Dir \<Rightarrow> Inl IsADirectoryError
           | Some (File content) \<Rightarrow> Inr fs
           | None \<Rightarrow> if is_dir fs (butlast p) then Inr (fs @ [(p, File [])])
                     else if exists fs (butlast p) then Inl NotADirectoryError
                     else Inl FileNotFoundError)"

definition st_size :: "filesystem \<Rightarrow> path \<Rightarrow> nat" where
  "st_size fs p = (case map_of fs p of Some (File content) \<Rightarrow> length content | _ \<Rightarrow> 0)"

definition file_content :: "filesystem \<Rightarrow> path \<Rightarrow> string" where
  "file_content fs p = (case map_of fs p of Some (File content) \<Rightarrow> content | _ \<Rightarrow> [])"

definition write_through :: "filesystem \<Rightarrow> path \<Rightarrow> string \<Rightarrow> filesystem" where
  "write_through fs p data = AList.update p (File (file_content fs p @ data)) fs"

subsection \<open>Sensor driver, spreadsheet service, clock\<close>

datatype sensor_kind = DHT11 | DHT22 | AM2302

datatype cell = Str string | Num pyfloat

text \<open>
  What the spreadsheet service does with one call of \<open>append_google_sheet\<close>:
  \<^verbatim>\<open>gspread.service_account()\<close> raises, or \<^verbatim>\<open>open_by_key(...).sheet1\<close> raises, or
  \<^verbatim>\<open>append_row\<close> raises, or all three succeed.
\<close>

datatype remote_outcome = AuthFails | OpenFails | AppendFails | RemoteOK

text \<open>
  What the outside does during the pass of the loop for one sensor: the answer of
  \<^verbatim>\<open>Adafruit_DHT.read_retry\<close> (it may raise), whether the flush of the output file reaches
  the disk, and the outcome of the spreadsheet calls.
\<close>

record step_env =
  read_retry :: "sensor_kind \<Rightarrow> string option \<Rightarrow> exn + (pyfloat option \<times> pyfloat option)"
  flush_ok :: bool
  remote :: remote_outcome

record cycle_env =
  localtime :: struct_time
  steps :: "nat \<Rightarrow> step_env"
  time_now :: pyfloat

text \<open>
  The state the script acts on: the path of the script (\<^verbatim>\<open>os.path.realpath(__file__)\<close>,
  which the script never changes), the file system, the write buffer of the one output
  file object, the first worksheet of every spreadsheet (by key), every \<^verbatim>\<open>append_row\<close>
  call made (whether or not the service accepted it), the lines printed, and the delays
  slept.
\<close>

record world =
  script_file :: string
  files :: filesystem
  pending :: string
  sheets :: "string option \<Rightarrow> cell list list"
  api_calls :: "(string option \<times> cell list) list"
  stdout :: "string list"
  sleeps :: "pyfloat list"

definition py_print :: "string \<Rightarrow> world \<Rightarrow> world" where
  "py_print s w = w\<lparr>stdout := stdout w @ [s]\<rparr>"

section \<open>The script\<close>

subsection \<open>\<open>open_url_files\<close>\<close>

text \<open>
  A dictionary is an association list in insertion order; \<^verbatim>\<open>d[k] = v\<close> is \<open>AList.update\<close>
  (a key already there keeps its place and takes the new value) and \<^verbatim>\<open>d.get(k)\<close> is
  \<open>map_of\<close>.
\<close>

type_synonym nest_dict = "(string \<times> string) list"

type_synonym url_dict = "(string \<times> nest_dict) list"

text \<open>
  Reading a text file line by line: \<^verbatim>\<open>\r\n\<close> and \<^verbatim>\<open>\r\<close> are read as \<^verbatim>\<open>\n\<close>, every line
  ends after its \<^verbatim>\<open>\n\<close>, and what follows the last \<^verbatim>\<open>\n\<close> is a line if it is not empty.
\<close>

fun universal_newlines :: "string \<Rightarrow> string" where
  "universal_newlines (c # d # cs) =
     (if c = CR \<and> d = LF then LF # universal_newlines cs
      else if c = CR then LF # universal_newlines (d # cs)
      else c # universal_newlines (d # cs))"
| "universal_newlines [c] = (if c = CR then [LF] else [c])"
| "universal_newlines [] = []"

fun lines_acc :: "string \<Rightarrow> string \<Rightarrow> string list" where
  "lines_acc cur [] = (if cur = [] then [] else [cur])"
| "lines_acc cur (c # cs) =
     (if c = LF then (cur @ [c]) # lines_acc [] cs else lines_acc (cur @ [c]) cs)"

definition file_lines :: "string \<Rightarrow> string list" where
  "file_lines content = lines_acc [] (universal_newlines content)"

text \<open>\<^verbatim>\<open>line.split()\<close>: the maximal runs of characters that are not ASCII whitespace.\<close>

definition is_space :: "char \<Rightarrow> bool" where
  "is_space c = (of_char c \<in> {9, 10, 11, 12, 13, 28, 29, 30, 31, 32 :: nat})"

fun split_ws :: "string \<Rightarrow> string \<Rightarrow> string list" where
  "split_ws cur [] = (if cur = [] then [] else [cur])"
| "split_ws cur (c # cs) =
     (if is_space c then (if cur = [] then split_ws [] cs else cur # split_ws [] cs)
      else split_ws (cur @ [c]) cs)"

definition py_split :: "string \<Rightarrow> string list" where
  "py_split line = split_ws [] line"

text \<open>
  The loop over the lines of one file; \<^verbatim>\<open>(key, value) = line.split()\<close> raises
  \<^verbatim>\<open>ValueError\<close> unless the line has exactly two fields.
\<close>

fun nest_loop :: "string list \<Rightarrow> nest_dict \<Rightarrow> exn + nest_dict" where
  "nest_loop [] nest_dict = Inr nest_dict"
| "nest_loop (line # rest) nest_dict =
     (case py_split line of
        [key, val] \<Rightarrow> nest_loop rest (AList.update key val nest_dict)
      | _ \<Rightarrow> Inl ValueError)"

text \<open>The loop over the paths that \<^verbatim>\<open>glob.glob\<close> returned.\<close>

fun url_files_loop ::
  "string list \<Rightarrow> string list \<Rightarrow> url_dict \<Rightarrow> world \<Rightarrow> exn + (url_dict \<times> world)" where
  "url_files_loop sensor_list [] url_dict w = Inr (url_dict, w)"
| "url_files_loop sensor_list (file_path # rest) url_dict w =
     (let w1 = py_print (''working on '' @ file_path) w;
          file_string = splitext_root (os_path_basename file_path);
          w2 = py_print (''file_string: '' @ file_string) w1
      in if list_ex (\<lambda>sensor_string. py_in sensor_string file_string) sensor_list
         then (let w3 = py_print ''Matched string'' w2
               in case open_read (files w3) file_path of
                    Inl e \<Rightarrow> Inl e
                  | Inr content \<Rightarrow>
                      (case nest_loop (file_lines content) [] of
                         Inl e \<Rightarrow> Inl e
                       | Inr nest_dict \<Rightarrow>
                           url_files_loop sensor_list rest
                             (AList.update file_string nest_dict url_dict) w3))
         else url_files_loop sensor_list rest url_dict (py_print ''no match'' w2))"

definition open_url_files ::
  "string \<Rightarrow> string list \<Rightarrow> world \<Rightarrow> exn + (url_dict \<times> world)" where
  "open_url_files dir_path sensor_list w =
     url_files_loop sensor_list (glob_star (files w) dir_path) [] w"

subsection \<open>\<open>open_output_file\<close>\<close>

definition header :: string where
  "header = ''date'' @ [TAB] @ ''time'' @ [TAB] @ ''temp_c'' @ [TAB] @ ''temp_f'' @ [TAB]
              @ ''humidity'' @ [TAB] @ ''pin'' @ [CR, LF]"

text \<open>
  The output directory is joined to the path of the script itself. The result is the file
  object (the path it was opened on) or \<^verbatim>\<open>None\<close>. \<^verbatim>\<open>os.makedirs\<close> is outside the \<^verbatim>\<open>try\<close>:
  what it raises leaves the function. The header is written to the buffer of the file
  object; nothing flushes it here.
\<close>

definition open_output_file :: "world \<Rightarrow> exn + (path option \<times> world)" where
  "open_output_file w =
     (let output_dir = os_path_join (script_file w) ''output'';
          output_file_path = os_path_join output_dir ''sensor_output.csv''
      in case (if \<not> exists (files w) (components output_dir)
               then makedirs (files w) (components output_dir) else Inr (files w)) of
           Inl e \<Rightarrow> Inl e
         | Inr fs1 \<Rightarrow>
             (case open_append fs1 (components output_file_path) of
                Inl e \<Rightarrow> Inr (None, w\<lparr>files := fs1\<rparr>)
              | Inr fs2 \<Rightarrow>
                  Inr (Some (components output_file_path),
                       w\<lparr>files := fs2,
                         pending := (if st_size fs2 (components output_file_path) = 0
                                     then header else [])\<rparr>)))"

subsection \<open>\<open>read_sensor\<close>\<close>

text \<open>The list \<^verbatim>\<open>[time, temp_c, temp_f, humidity]\<close> that \<open>read_sensor\<close> returns.\<close>

type_synonym sensor_list = "string \<times> pyfloat \<times> pyfloat \<times> pyfloat"

definition read_sensor ::
  "(sensor_kind \<Rightarrow> string option \<Rightarrow> exn + (pyfloat option \<times> pyfloat option)) \<Rightarrow>
   sensor_kind \<Rightarrow> string option \<Rightarrow> struct_time \<Rightarrow> world \<Rightarrow> exn + (sensor_list option \<times> world)" where
  "read_sensor driver dht_sensor dht_pin input_time w =
     (case driver dht_sensor dht_pin of
        Inl e \<Rightarrow> Inl e
      | Inr (Some humidity, Some temp_c) \<Rightarrow>
          (case py_truediv (float_mul temp_c (py_float 9)) (py_float 5) of
             Inl e \<Rightarrow> Inl e
           | Inr q \<Rightarrow>
               (let temp_f = float_add q (py_float 32)
                in Inr (Some (strftime_clock input_time, temp_c, temp_f, humidity), w)))
      | Inr _ \<Rightarrow> Inr (None, py_print ''Failed to retrieve data from humidity sensor'' w))"

subsection \<open>\<open>append_file\<close>\<close>

definition format_line :: "sensor_list \<Rightarrow> struct_time \<Rightarrow> string option \<Rightarrow> string" where
  "format_line input_list input_time dht_pin =
     (case input_list of (tm, temp_c, temp_f, humidity) \<Rightarrow>
        strftime_date input_time @ [TAB] @ tm @ [TAB] @ format_f1 temp_c @ [TAB]
          @ format_f1 temp_f @ [TAB] @ format_f1 humidity @ [TAB] @ format_str_opt dht_pin
          @ [CR, LF])"

text \<open>
  The body of the \<^verbatim>\<open>try\<close>: \<^verbatim>\<open>input_file_handle.write\<close> is looked up first (on \<^verbatim>\<open>None\<close> this
  raises), then the line is formatted (indexing \<^verbatim>\<open>None\<close> raises), written to the buffer, and
  the buffer is flushed. A flush that fails leaves the buffer as it is.
\<close>

definition append_file_try ::
  "path option \<Rightarrow> sensor_list option \<Rightarrow> struct_time \<Rightarrow> string option \<Rightarrow> bool \<Rightarrow> world
   \<Rightarrow> (exn + unit) \<times> world" where
  "append_file_try input_file_handle input_list input_time dht_pin fl_ok w =
     (case input_file_handle of
        None \<Rightarrow> (Inl AttributeError, w)
      | Some p \<Rightarrow>
          (case input_list of
             None \<Rightarrow> (Inl TypeError, w)
           | Some l \<Rightarrow>
               (let w1 = w\<lparr>pending := pending w @ format_line l input_time dht_pin\<rparr>
                in if fl_ok
                   then (Inr (), w1\<lparr>files := write_through (files w1) p (pending w1),
                                    pending := []\<rparr>)
                   else (Inl OSError, w1))))"

definition append_file ::
  "path option \<Rightarrow> sensor_list option \<Rightarrow> struct_time \<Rightarrow> string option \<Rightarrow> bool \<Rightarrow> world
   \<Rightarrow> world" where
  "append_file input_file_handle input_list input_time dht_pin fl_ok w =
     (case append_file_try input_file_handle input_list input_time dht_pin fl_ok w of
        (Inl e, w') \<Rightarrow> py_print ''Fail to write to file'' w'
      | (Inr u, w') \<Rightarrow> w')"

subsection \<open>\<open>append_google_sheet\<close>\<close>

definition append_list :: "sensor_list \<Rightarrow> struct_time \<Rightarrow> cell list" where
  "append_list input_list input_time =
     (case input_list of (tm, temp_c, temp_f, humidity) \<Rightarrow>
        [Str (strftime_date input_time), Str tm,
         Num (py_round1 temp_c), Num (py_round1 temp_f), Num (py_round1 humidity)])"

definition append_google_sheet_try ::
  "sensor_list option \<Rightarrow> string option \<Rightarrow> struct_time \<Rightarrow> remote_outcome \<Rightarrow> world
   \<Rightarrow> (exn + unit) \<times> world" where
  "append_google_sheet_try input_list sheet_key input_time ro w =
     (if ro = AuthFails then (Inl APIError, w)
      else if ro = OpenFails then (Inl APIError, w)
      else case input_list of
             None \<Rightarrow> (Inl TypeError, w)
           | Some l \<Rightarrow>
               (let row = append_list l input_time;
                    w1 = w\<lparr>api_calls := api_calls w @ [(sheet_key, row)]\<rparr>
                in if ro = AppendFails then (Inl APIError, w1)
                   else (Inr (), w1\<lparr>sheets := (sheets w1)
                                       (sheet_key := sheets w1 sheet_key @ [row])\<rparr>)))"

definition append_google_sheet ::
  "sensor_list option \<Rightarrow> string option \<Rightarrow> struct_time \<Rightarrow> remote_outcome \<Rightarrow> world \<Rightarrow> world" where
  "append_google_sheet input_list sheet_key input_time ro w =
     (case append_google_sheet_try input_list sheet_key input_time ro w of
        (Inl e, w') \<Rightarrow> py_print ''Failed to upload to Google Sheets'' w'
      | (Inr u, w') \<Rightarrow> w')"

subsection \<open>\<open>main\<close>\<close>

text \<open>The body of the \<^verbatim>\<open>for\<close> loop, for one item of \<^verbatim>\<open>sheet_ids.items()\<close>.\<close>

definition poll_sensor ::
  "step_env \<Rightarrow> struct_time \<Rightarrow> path option \<Rightarrow> string \<times> nest_dict \<Rightarrow> world \<Rightarrow> exn + world" where
  "poll_sensor e read_time f item w =
     (let sensor_dict = snd item;
          dht_pin = map_of sensor_dict ''pin''
      in case read_sensor (read_retry e) DHT22 dht_pin read_time w of
           Inl x \<Rightarrow> Inl x
         | Inr (sensor_output, w1) \<Rightarrow>
             Inr (append_google_sheet sensor_output (map_of sensor_dict ''id'') read_time
                    (remote e)
                    (append_file f sensor_output read_time dht_pin (flush_ok e) w1)))"

text \<open>The \<^verbatim>\<open>for\<close> loop; \<open>i\<close> counts the items already done in this cycle.\<close>

fun poll_sensors ::
  "(nat \<Rightarrow> step_env) \<Rightarrow> nat \<Rightarrow> struct_time \<Rightarrow> path option \<Rightarrow> url_dict \<Rightarrow> world \<Rightarrow> exn + world" where
  "poll_sensors es i read_time f [] w = Inr w"
| "poll_sensors es i read_time f (item # rest) w =
     (case poll_sensor (es i) read_time f item w of
        Inl x \<Rightarrow> Inl x
      | Inr w' \<Rightarrow> poll_sensors es (Suc i) read_time f rest w')"

text \<open>\<^verbatim>\<open>120.0 - ((time.time() - start_time) % 60.0)\<close>\<close>

definition sleep_delay :: "pyfloat \<Rightarrow> pyfloat \<Rightarrow> exn + pyfloat" where
  "sleep_delay now start_time =
     (case py_mod (float_sub now start_time) (py_float 60) of
        Inl e \<Rightarrow> Inl e
      | Inr r \<Rightarrow> Inr (float_sub (py_float 120) r))"

text \<open>
  \<^verbatim>\<open>time.sleep(d)\<close> raises for a NaN, for a delay too large for the 64-bit count of
  nanoseconds it is converted to, and for a negative delay.
\<close>

fun sleep_error :: "pyfloat \<Rightarrow> exn option" where
  "sleep_error NaN = Some ValueError"
| "sleep_error (Infinity s) = Some OverflowError"
| "sleep_error (Finite s m) =
     (if 2 ^ 63 \<le> m * 10 ^ 9 then Some OverflowError
      else if s \<and> m \<noteq> 0 then Some ValueError
      else None)"

definition time_sleep :: "pyfloat \<Rightarrow> world \<Rightarrow> exn + world" where
  "time_sleep d w =
     (case sleep_error d of
        Some e \<Rightarrow> Inl e
      | None \<Rightarrow> Inr (w\<lparr>sleeps := sleeps w @ [d]\<rparr>))"

text \<open>One pass of the \<^verbatim>\<open>while True\<close> loop.\<close>

definition main_cycle ::
  "cycle_env \<Rightarrow> pyfloat \<Rightarrow> path option \<Rightarrow> url_dict \<Rightarrow> world \<Rightarrow> exn + world" where
  "main_cycle ce start_time f sheet_ids w =
     (case poll_sensors (steps ce) 0 (localtime ce) f sheet_ids w of
        Inl x \<Rightarrow> Inl x
      | Inr w1 \<Rightarrow>
          (case sleep_delay (time_now ce) start_time of
             Inl x \<Rightarrow> Inl x
           | Inr d \<Rightarrow> time_sleep d w1))"

text \<open>
  The loop never ends by itself. \<open>main_loop env start_time f sheet_ids k n w\<close> runs the
  passes \<open>k, \<dots>, k + n - 1\<close>: \<open>Inr\<close> is the world in which the loop is about to start pass
  \<open>k + n\<close>, \<open>Inl\<close> the exception that ended the process before.
\<close>

fun main_loop ::
  "(nat \<Rightarrow> cycle_env) \<Rightarrow> pyfloat \<Rightarrow> path option \<Rightarrow> url_dict \<Rightarrow> nat \<Rightarrow> nat \<Rightarrow> world
   \<Rightarrow> exn + world" where
  "main_loop env start_time f sheet_ids k 0 w = Inr w"
| "main_loop env start_time f sheet_ids k (Suc n) w =
     (case main_cycle (env k) start_time f sheet_ids w of
        Inl x \<Rightarrow> Inl x
      | Inr w' \<Rightarrow> main_loop env start_time f sheet_ids (Suc k) n w')"

text \<open>
  \<open>main\<close>, for the first \<open>n\<close> passes of its loop; \<open>start_time\<close> is what \<^verbatim>\<open>time.time()\<close>
  returned first.
\<close>

definition main ::
  "pyfloat \<Rightarrow> (nat \<Rightarrow> cycle_env) \<Rightarrow> nat \<Rightarrow> world \<Rightarrow> exn + world" where
  "main start_time env n w =
     (let url_file_dir_path = os_path_join (script_file w) ''url''
      in case open_url_files url_file_dir_path [''home_livingroom'', ''home_outside''] w of
           Inl x \<Rightarrow> Inl x
         | Inr (sheet_ids, w1) \<Rightarrow>
             (case open_output_file w1 of
                Inl x \<Rightarrow> Inl x
              | Inr (f, w2) \<Rightarrow> main_loop env start_time f sheet_ids 0 n w2))"

section \<open>Notions used to state the properties\<close>

text \<open>
  What the output file holds once the buffer of the file object has reached the disk.
\<close>

definition log_text :: "path \<Rightarrow> world \<Rightarrow> string" where
  "log_text p w = file_content (files w) p @ pending w"

text \<open>Every component of every listed path is a name: not empty and without separator.\<close>

definition wf_names :: "filesystem \<Rightarrow> bool" where
  "wf_names fs = (\<forall>e \<in> set fs. \<forall>c \<in> set (fst e). c \<noteq> [] \<and> SEP \<notin> set c)"

definition empty_world :: world where
  "empty_world = \<lparr>script_file = ''/home/pi/python/read_sensor_data.py'', files = [],
                    pending = [], sheets = (\<lambda>k. []), api_calls = [],
                    stdout = [], sleeps = []\<rparr>"

text \<open>
  What holds in every run of the script: its path is a path string without trailing
  separator and without pattern characters, it names a regular file of the file system,
  and the file system lists nothing below that file.
\<close>

definition script_is_file :: "world \<Rightarrow> bool" where
  "script_is_file w =
     (script_file w \<noteq> [] \<and> last (script_file w) \<noteq> SEP \<and> \<not> has_magic (script_file w)
      \<and> components (script_file w) \<noteq> []
      \<and> (case map_of (files w) (components (script_file w)) of
            Some (File source) \<Rightarrow> True
          | _ \<Rightarrow> False)
      \<and> (\<forall>e \<in> set (files w).
            \<not> (length (components (script_file w)) < length (fst e)
               \<and> take (length (components (script_file w))) (fst e)
                   = components (script_file w))))"

text \<open>
  The list \<open>read_sensor\<close> returns for an item of \<^verbatim>\<open>sheet_ids\<close> under the driver answer of a
  pass: \<open>None\<close> when it returns \<^verbatim>\<open>None\<close> (or raises). The world does not enter the result.
\<close>

definition produced :: "step_env \<Rightarrow> struct_time \<Rightarrow> string \<times> nest_dict \<Rightarrow> sensor_list option" where
  "produced e t item =
     (case read_sensor (read_retry e) DHT22 (map_of (snd item) ''pin'') t empty_world of
        Inl x \<Rightarrow> None
      | Inr (r, w') \<Rightarrow> r)"

section \<open>The scenario of the specification\<close>

text \<open>
  One reading of 21.4 degrees Celsius and 55.2 percent humidity on 2021-03-04 at 12:30:05,
  for the sensor \<^verbatim>\<open>home_livingroom\<close> on pin 4 with spreadsheet \<^verbatim>\<open>ABC123\<close>; a second sensor
  \<^verbatim>\<open>home_outside\<close> on pin 17 with spreadsheet \<^verbatim>\<open>XYZ789\<close>.
\<close>

definition example_time :: struct_time where
  "example_time = \<lparr>tm_year = 2021, tm_mon = 3, tm_mday = 4,
                     tm_hour = 12, tm_min = 30, tm_sec = 5\<rparr>"

definition example_temp_c :: pyfloat where
  "example_temp_c = py_float (214 / 10)"

definition example_humidity :: pyfloat where
  "example_humidity = py_float (552 / 10)"

definition example_temp_f :: pyfloat where
  "example_temp_f = Finite False (4962403839408865 / 70368744177664)"

definition example_temp_f_rounded :: pyfloat where
  "example_temp_f_rounded = py_float (705 / 10)"

definition example_driver ::
  "sensor_kind \<Rightarrow> string option \<Rightarrow> exn + (pyfloat option \<times> pyfloat option)" where
  "example_driver k p = Inr (Some example_humidity, Some example_temp_c)"

definition no_data_driver ::
  "sensor_kind \<Rightarrow> string option \<Rightarrow> exn + (pyfloat option \<times> pyfloat option)" where
  "no_data_driver k p = Inr (None, None)"

definition example_reading :: sensor_list where
  "example_reading = (''12:30:05'', example_temp_c, example_temp_f, example_humidity)"

definition example_item :: "string \<times> nest_dict" where
  "example_item =
     (''home_livingroom'', [(''id'', ''ABC123''), (''pin'', ''4''), (''name'', ''home_livingroom'')])"

definition outside_item :: "string \<times> nest_dict" where
  "outside_item =
     (''home_outside'', [(''id'', ''XYZ789''), (''pin'', ''17''), (''name'', ''home_outside'')])"

definition log_path :: path where
  "log_path = [''home'', ''pi'', ''output'', ''sensor_output.csv'']"

text \<open>
  A pass in which both write paths fail for the first sensor (the flush fails, the
  service refuses the credentials) and succeed for the second.
\<close>

definition example_steps :: "nat \<Rightarrow> step_env" where
  "example_steps i = \<lparr>read_retry = example_driver, flush_ok = (i \<noteq> 0),
                       remote = (if i = 0 then AuthFails else RemoteOK)\<rparr>"

definition no_data_steps :: "nat \<Rightarrow> step_env" where
  "no_data_steps i = \<lparr>read_retry = no_data_driver, flush_ok = True, remote = RemoteOK\<rparr>"

text \<open>A world in which the output file exists and is open, the header in its buffer.\<close>

definition opened_world :: world where
  "opened_world = empty_world\<lparr>files := [([''home''], Dir), ([''home'', ''pi''], Dir),
                      ([''home'', ''pi'', ''output''], Dir), (log_path, File [])],
                    pending := header\<rparr>"

text \<open>
  The script installed as \<^verbatim>\<open>/home/pi/python/read_sensor_data.py\<close>, before its first run:
  there is neither a directory of configuration files nor an output directory.
\<close>

definition installed_world :: world where
  "installed_world = empty_world\<lparr>files :=
     [([''home''], Dir), ([''home'', ''pi''], Dir), ([''home'', ''pi'', ''python''], Dir),
      ([''home'', ''pi'', ''python'', ''read_sensor_data.py''],
         File ''#!/usr/bin/env python3'')]\<rparr>"

text \<open>
  A configuration directory \<^verbatim>\<open>/home/pi/url\<close> with, in scan order: the file of the living
  room sensor, a file of notes, a second file for the living room sensor with another
  extension (in which the key \<^verbatim>\<open>pin\<close> comes twice), and a hidden file for the outside sensor.
\<close>

definition livingroom_txt :: string where
  "livingroom_txt = ''id'' @ [TAB] @ ''ABC123'' @ [LF] @ ''pin'' @ [TAB] @ ''4'' @ [LF]
                      @ ''name'' @ [TAB] @ ''home_livingroom''"

definition livingroom_conf :: string where
  "livingroom_conf = ''id'' @ [TAB] @ ''DEF456'' @ [LF] @ ''pin'' @ [TAB] @ ''5'' @ [LF]
                       @ ''pin'' @ [TAB] @ ''6'' @ [LF]"

definition config_world :: world where
  "config_world = empty_world\<lparr>files :=
     [([''home''], Dir), ([''home'', ''pi''], Dir), ([''home'', ''pi'', ''url''], Dir),
      ([''home'', ''pi'', ''url'', ''home_livingroom.txt''], File livingroom_txt),
      ([''home'', ''pi'', ''url'', ''notes.txt''], File ''remember to water the plants''),
      ([''home'', ''pi'', ''url'', ''home_livingroom.conf''], File livingroom_conf),
      ([''home'', ''pi'', ''url'', ''.home_outside.txt''],
         File (''id'' @ [TAB] @ ''XYZ789'' @ [LF] @ ''pin'' @ [TAB] @ ''17'' @ [LF]))]\<rparr>"

text \<open>The clock: the process started at 1614861000.25 and a pass ends 5 seconds later.\<close>

definition example_start_time :: pyfloat where
  "example_start_time = py_float (6459444001 / 4)"

definition example_now :: pyfloat where
  "example_now = py_float (6459444021 / 4)"

definition example_cycle :: cycle_env where
  "example_cycle = \<lparr>localtime = example_time, steps = example_steps, time_now = example_now\<rparr>"

section \<open>Properties\<close>

subsection \<open>Literals\<close>

lemma py_float_5: "py_float 5 = Finite False 5" by code_simp
lemma py_float_60: "py_float 60 = Finite False 60" by code_simp
lemma py_float_120: "py_float 120 = Finite False 120" by code_simp

lemma append_file_remote [simp]:
  "sheets (append_file f l t pin b w) = sheets w"
  "api_calls (append_file f l t pin b w) = api_calls w"
  "sleeps (append_file f l t pin b w) = sleeps w"
  by (auto simp: append_file_def append_file_try_def py_print_def Let_def split: option.splits)

lemma append_google_sheet_local [simp]:
  "files (append_google_sheet l k t ro w) = files w"
  "pending (append_google_sheet l k t ro w) = pending w"
  "sleeps (append_google_sheet l k t ro w) = sleeps w"
  by (auto simp: append_google_sheet_def append_google_sheet_try_def py_print_def Let_def
      split: option.splits)


subsection \<open>\<open>read_sensor\<close>\<close>

lemma read_sensor_some:
  assumes "driver dht_sensor dht_pin = Inr (Some humidity, Some temp_c)"
  shows "read_sensor driver dht_sensor dht_pin input_time w =
           Inr (Some (strftime_clock input_time, temp_c,
                      float_add (float_div (float_mul temp_c (py_float 9)) (py_float 5)) (py_float 32),
                      humidity), w)"
  using assms by (simp add: read_sensor_def py_truediv_def py_float_5)

text \<open>
  Claim C8. Whenever the driver returns both a humidity and a temperature, \<open>read_sensor\<close>
  returns the list whose Fahrenheit entry is \<^verbatim>\<open>(temp_c * 9/5) + 32\<close> of its Celsius entry,
  computed in float arithmetic (each of the three operations rounds to the nearest float)
  and not rounded to one decimal.
\<close>

theorem read_sensor_fahrenheit:
  assumes "driver dht_sensor dht_pin = Inr (Some humidity, Some temp_c)"
  shows "read_sensor driver dht_sensor dht_pin input_time w =
           Inr (Some (strftime_clock input_time, temp_c,
                      float_add (float_div (float_mul temp_c (py_float 9)) (py_float 5)) (py_float 32),
                      humidity), w)"
  using assms by (rule read_sensor_some)

lemma example_fahrenheit:
  "float_add (float_div (float_mul example_temp_c (py_float 9)) (py_float 5)) (py_float 32)
     = example_temp_f"
  by code_simp

lemma example_clock: "strftime_clock example_time = ''12:30:05''"
  by code_simp

lemma example_date: "strftime_date example_time = ''2021-03-04''"
  by code_simp

theorem read_sensor_fahrenheit_witness:
  "read_sensor example_driver DHT22 (Some ''4'') example_time empty_world =
     Inr (Some example_reading, empty_world)"
  using read_sensor_fahrenheit [of example_driver DHT22 "Some ''4''" example_humidity
      example_temp_c example_time empty_world]
  by (simp add: example_driver_def example_fahrenheit example_clock example_reading_def)

text \<open>
  Claim C1, as amended. For a reading that \<open>read_sensor\<close> produced, when the calls to the
  spreadsheet service succeed, \<open>append_google_sheet\<close> appends to the first sheet of the
  spreadsheet with the given key exactly one row, and the row has exactly five values: the
  date, the time of day, and the Celsius temperature, the Fahrenheit temperature and the
  humidity, each rounded to one decimal. No other sheet changes, and exactly one
  \<^verbatim>\<open>append_row\<close> call is made.
\<close>

theorem append_google_sheet_row:
  "sheets (append_google_sheet (Some (tm, temp_c, temp_f, humidity)) sheet_key input_time RemoteOK w)
     = (sheets w)(sheet_key := sheets w sheet_key @
          [[Str (strftime_date input_time), Str tm, Num (py_round1 temp_c),
            Num (py_round1 temp_f), Num (py_round1 humidity)]])
   \<and> api_calls (append_google_sheet (Some (tm, temp_c, temp_f, humidity)) sheet_key input_time RemoteOK w)
     = api_calls w @
          [(sheet_key, [Str (strftime_date input_time), Str tm, Num (py_round1 temp_c),
            Num (py_round1 temp_f), Num (py_round1 humidity)])]"
  by (simp add: append_google_sheet_def append_google_sheet_try_def append_list_def Let_def)

lemma example_round:
  "py_round1 example_temp_c = example_temp_c"
  "py_round1 example_temp_f = example_temp_f_rounded"
  "py_round1 example_humidity = example_humidity"
  by code_simp+

theorem append_google_sheet_row_witness:
  "sheets (append_google_sheet (Some example_reading) (Some ''ABC123'') example_time RemoteOK empty_world)
      (Some ''ABC123'')
     = [[Str ''2021-03-04'', Str ''12:30:05'', Num example_temp_c,
         Num example_temp_f_rounded, Num example_humidity]]"
  using append_google_sheet_row [of "''12:30:05''" example_temp_c example_temp_f example_humidity
      "Some ''ABC123''" example_time empty_world]
  by (simp add: example_reading_def example_round example_date empty_world_def)

text \<open>
  The row of the scenario is not the four values \<^verbatim>\<open>[date, 21.4, 70.5, 55.2]\<close>: it has five
  values, the time of day being the second.
\<close>

theorem remote_row_four_values_counterexample:
  "sheets (append_google_sheet (Some example_reading) (Some ''ABC123'') example_time RemoteOK empty_world)
      (Some ''ABC123'')
     \<noteq> [[Str ''2021-03-04'', Num example_temp_c,
         Num example_temp_f_rounded, Num example_humidity]]
   \<and> length (hd (sheets (append_google_sheet (Some example_reading) (Some ''ABC123'') example_time
         RemoteOK empty_world) (Some ''ABC123''))) = 5"
  by (simp add: append_google_sheet_def append_google_sheet_try_def append_list_def Let_def
      example_reading_def empty_world_def)

text \<open>
  Claim C3. When the driver returns without a humidity or without a temperature, the pass
  of the loop for that sensor only prints three messages: the file system, the buffer of
  the output file, the sheets and the list of \<^verbatim>\<open>append_row\<close> calls are unchanged, nothing
  is raised, and the loop goes on with the next sensor.
\<close>

theorem no_data_no_write:
  assumes "read_retry (es i) DHT22 (map_of (snd item) ''pin'') = Inr (humidity, temp_c)"
    and "humidity = None \<or> temp_c = None"
  shows "poll_sensor (es i) read_time f item w =
           Inr (w\<lparr>stdout := stdout w @ [''Failed to retrieve data from humidity sensor'',
                   ''Fail to write to file'', ''Failed to upload to Google Sheets'']\<rparr>)
         \<and> poll_sensors es i read_time f (item # rest) w =
           poll_sensors es (Suc i) read_time f rest
             (w\<lparr>stdout := stdout w @ [''Failed to retrieve data from humidity sensor'',
                   ''Fail to write to file'', ''Failed to upload to Google Sheets'']\<rparr>)"
proof -
  have r: "read_sensor (read_retry (es i)) DHT22 (map_of (snd item) ''pin'') read_time w =
             Inr (None, py_print ''Failed to retrieve data from humidity sensor'' w)"
    using assms by (auto simp: read_sensor_def split: option.splits)
  have a: "append_file f None read_time pin b w1 = py_print ''Fail to write to file'' w1"
    for pin b w1
    by (simp add: append_file_def append_file_try_def split: option.splits)
  have g: "append_google_sheet None k read_time ro w1 =
             py_print ''Failed to upload to Google Sheets'' w1" for k ro w1
    by (simp add: append_google_sheet_def append_google_sheet_try_def)
  have p: "poll_sensor (es i) read_time f item w =
           Inr (w\<lparr>stdout := stdout w @ [''Failed to retrieve data from humidity sensor'',
                   ''Fail to write to file'', ''Failed to upload to Google Sheets'']\<rparr>)"
    by (simp add: poll_sensor_def r a g py_print_def)
  show ?thesis using p by simp
qed


theorem no_data_no_write_witness:
  "poll_sensors no_data_steps 0 example_time (Some log_path) [example_item, outside_item] empty_world =
     poll_sensors no_data_steps 1 example_time (Some log_path) [outside_item]
       (empty_world\<lparr>stdout := [''Failed to retrieve data from humidity sensor'',
                   ''Fail to write to file'', ''Failed to upload to Google Sheets'']\<rparr>)"
  using no_data_no_write [of no_data_steps 0 example_item None None example_time "Some log_path"
      empty_world "[outside_item]"]
  by (simp add: no_data_steps_def no_data_driver_def empty_world_def)

subsection \<open>Effects of the two writers\<close>

lemma read_sensor_produced:
  assumes "read_retry e DHT22 (map_of (snd item) ''pin'') = Inr r"
  shows "\<exists>w1. read_sensor (read_retry e) DHT22 (map_of (snd item) ''pin'') t w =
                 Inr (produced e t item, w1)
           \<and> files w1 = files w \<and> pending w1 = pending w \<and> sheets w1 = sheets w
           \<and> api_calls w1 = api_calls w \<and> sleeps w1 = sleeps w"
  using assms
  by (cases r) (auto simp: produced_def read_sensor_def py_truediv_def py_float_5 py_print_def
      split: option.splits)

lemma file_content_write_through [simp]:
  "file_content (write_through fs p d) p = file_content fs p @ d"
  by (simp add: file_content_def write_through_def update_conv')

lemma append_file_log:
  "log_text p (append_file (Some p) r t pin b w) =
     log_text p w @ (case r of None \<Rightarrow> [] | Some l \<Rightarrow> format_line l t pin)"
  by (auto simp: log_text_def append_file_def append_file_try_def py_print_def Let_def
      split: option.splits)

lemma append_file_None [simp]:
  "append_file None r t pin b w = py_print ''Fail to write to file'' w"
  by (simp add: append_file_def append_file_try_def)

lemma py_print_fields [simp]:
  "files (py_print s w) = files w" "pending (py_print s w) = pending w"
  "sheets (py_print s w) = sheets w" "api_calls (py_print s w) = api_calls w"
  "sleeps (py_print s w) = sleeps w"
  by (simp_all add: py_print_def)

lemma log_text_cong: "files w' = files w \<Longrightarrow> pending w' = pending w \<Longrightarrow> log_text p w' = log_text p w"
  by (simp add: log_text_def)

lemma append_google_sheet_calls:
  "api_calls (append_google_sheet r k t ro w) =
     api_calls w @ (case r of None \<Rightarrow> []
                    | Some l \<Rightarrow> if ro = AuthFails \<or> ro = OpenFails then []
                                else [(k, append_list l t)])"
  by (auto simp: append_google_sheet_def append_google_sheet_try_def py_print_def Let_def
      split: option.splits)

lemma append_google_sheet_sheets:
  "sheets (append_google_sheet r k t ro w) k' =
     sheets w k' @ (case r of None \<Rightarrow> []
                    | Some l \<Rightarrow> if ro = RemoteOK \<and> k = k' then [append_list l t] else [])"
  by (cases ro) (auto simp: append_google_sheet_def append_google_sheet_try_def py_print_def Let_def
      split: option.splits)

lemma poll_sensor_char:
  assumes "read_retry e DHT22 (map_of (snd item) ''pin'') = Inr r"
  shows "\<exists>w'. poll_sensor e t f item w = Inr w'
     \<and> (\<forall>p. f = Some p \<longrightarrow> log_text p w' = log_text p w @
            (case produced e t item of None \<Rightarrow> []
             | Some l \<Rightarrow> format_line l t (map_of (snd item) ''pin'')))
     \<and> (f = None \<longrightarrow> files w' = files w \<and> pending w' = pending w)
     \<and> api_calls w' = api_calls w @
            (case produced e t item of None \<Rightarrow> []
             | Some l \<Rightarrow> if remote e = AuthFails \<or> remote e = OpenFails then []
                         else [(map_of (snd item) ''id'', append_list l t)])
     \<and> (\<forall>k. sheets w' k = sheets w k @
            (case produced e t item of None \<Rightarrow> []
             | Some l \<Rightarrow> if remote e = RemoteOK \<and> map_of (snd item) ''id'' = k
                         then [append_list l t] else []))
     \<and> sleeps w' = sleeps w"
proof -
  obtain w1 where r: "read_sensor (read_retry e) DHT22 (map_of (snd item) ''pin'') t w =
                 Inr (produced e t item, w1)"
    and w1: "files w1 = files w" "pending w1 = pending w" "sheets w1 = sheets w"
      "api_calls w1 = api_calls w" "sleeps w1 = sleeps w"
    using read_sensor_produced [OF assms] by blast
  define w2 where "w2 = append_file f (produced e t item) t (map_of (snd item) ''pin'') (flush_ok e) w1"
  define w3 where "w3 = append_google_sheet (produced e t item) (map_of (snd item) ''id'') t (remote e) w2"
  have p: "poll_sensor e t f item w = Inr w3"
    by (simp add: poll_sensor_def r w2_def w3_def Let_def)
  have l: "log_text p w3 = log_text p w @
            (case produced e t item of None \<Rightarrow> []
             | Some l \<Rightarrow> format_line l t (map_of (snd item) ''pin''))" if "f = Some p" for p
  proof -
    have "log_text p w3 = log_text p w2"
      by (simp add: w3_def log_text_def)
    also have "\<dots> = log_text p w1 @ (case produced e t item of None \<Rightarrow> []
             | Some l \<Rightarrow> format_line l t (map_of (snd item) ''pin''))"
      using that by (simp add: w2_def append_file_log)
    also have "log_text p w1 = log_text p w"
      using w1 by (simp add: log_text_def)
    finally show ?thesis .
  qed
  have n: "files w3 = files w \<and> pending w3 = pending w" if "f = None"
    using that w1 by (simp add: w3_def w2_def)
  have a: "api_calls w3 = api_calls w @
            (case produced e t item of None \<Rightarrow> []
             | Some l \<Rightarrow> if remote e = AuthFails \<or> remote e = OpenFails then []
                         else [(map_of (snd item) ''id'', append_list l t)])"
    using w1 by (simp add: w3_def w2_def append_google_sheet_calls)
  have s: "sheets w3 k = sheets w k @
            (case produced e t item of None \<Rightarrow> []
             | Some l \<Rightarrow> if remote e = RemoteOK \<and> map_of (snd item) ''id'' = k
                         then [append_list l t] else [])" for k
    using w1 by (simp add: w3_def w2_def append_google_sheet_sheets)
  have z: "sleeps w3 = sleeps w"
    using w1 by (simp add: w3_def w2_def)
  show ?thesis
    using p l n a s z by blast
qed

lemma poll_sensors_char:
  assumes "\<forall>j < length items. \<exists>r. read_retry (es (i + j)) DHT22 (map_of (snd (items ! j)) ''pin'') = Inr r"
  shows "\<exists>w'. poll_sensors es i t f items w = Inr w'
     \<and> (\<forall>p. f = Some p \<longrightarrow> log_text p w' = log_text p w @
            concat (map (\<lambda>(i, item). case produced (es i) t item of None \<Rightarrow> []
                    | Some l \<Rightarrow> format_line l t (map_of (snd item) ''pin'')) (enumerate i items)))
     \<and> (f = None \<longrightarrow> files w' = files w \<and> pending w' = pending w)
     \<and> api_calls w' = api_calls w @
            concat (map (\<lambda>(i, item). case produced (es i) t item of None \<Rightarrow> []
                    | Some l \<Rightarrow> if remote (es i) = AuthFails \<or> remote (es i) = OpenFails then []
                         else [(map_of (snd item) ''id'', append_list l t)]) (enumerate i items))
     \<and> (\<forall>k. sheets w' k = sheets w k @
            concat (map (\<lambda>(i, item). case produced (es i) t item of None \<Rightarrow> []
                    | Some l \<Rightarrow> if remote (es i) = RemoteOK \<and> map_of (snd item) ''id'' = k
                         then [append_list l t] else []) (enumerate i items)))
     \<and> sleeps w' = sleeps w"
  using assms
proof (induction items arbitrary: i w)
  case Nil
  then show ?case by simp
next
  case (Cons item rest)
  from Cons.prems have "\<exists>r. read_retry (es (i + 0)) DHT22 (map_of (snd ((item # rest) ! 0)) ''pin'') = Inr r"
    by blast
  then obtain r where r: "read_retry (es i) DHT22 (map_of (snd item) ''pin'') = Inr r"
    by auto
  from poll_sensor_char [OF r, of t f w] obtain w1 where
    p: "poll_sensor (es i) t f item w = Inr w1"
    and l: "\<And>p. f = Some p \<Longrightarrow> log_text p w1 = log_text p w @
            (case produced (es i) t item of None \<Rightarrow> []
             | Some l \<Rightarrow> format_line l t (map_of (snd item) ''pin''))"
    and n: "f = None \<Longrightarrow> files w1 = files w \<and> pending w1 = pending w"
    and a: "api_calls w1 = api_calls w @
            (case produced (es i) t item of None \<Rightarrow> []
             | Some l \<Rightarrow> if remote (es i) = AuthFails \<or> remote (es i) = OpenFails then []
                         else [(map_of (snd item) ''id'', append_list l t)])"
    and s: "\<And>k. sheets w1 k = sheets w k @
            (case produced (es i) t item of None \<Rightarrow> []
             | Some l \<Rightarrow> if remote (es i) = RemoteOK \<and> map_of (snd item) ''id'' = k
                         then [append_list l t] else [])"
    and z: "sleeps w1 = sleeps w"
    by blast
  have "\<forall>j < length rest. \<exists>r. read_retry (es (Suc i + j)) DHT22 (map_of (snd (rest ! j)) ''pin'') = Inr r"
  proof (intro allI impI)
    fix j assume "j < length rest"
    then have "Suc j < length (item # rest)" by simp
    with Cons.prems have "\<exists>r. read_retry (es (i + Suc j)) DHT22 (map_of (snd ((item # rest) ! Suc j)) ''pin'') = Inr r"
      by blast
    then show "\<exists>r. read_retry (es (Suc i + j)) DHT22 (map_of (snd (rest ! j)) ''pin'') = Inr r"
      by simp
  qed
  from Cons.IH [OF this, of w1] obtain w' where
    p': "poll_sensors es (Suc i) t f rest w1 = Inr w'"
    and l': "\<And>p. f = Some p \<Longrightarrow> log_text p w' = log_text p w1 @
            concat (map (\<lambda>(i, item). case produced (es i) t item of None \<Rightarrow> []
                    | Some l \<Rightarrow> format_line l t (map_of (snd item) ''pin'')) (enumerate (Suc i) rest))"
    and n': "f = None \<Longrightarrow> files w' = files w1 \<and> pending w' = pending w1"
    and a': "api_calls w' = api_calls w1 @
            concat (map (\<lambda>(i, item). case produced (es i) t item of None \<Rightarrow> []
                    | Some l \<Rightarrow> if remote (es i) = AuthFails \<or> remote (es i) = OpenFails then []
                         else [(map_of (snd item) ''id'', append_list l t)]) (enumerate (Suc i) rest))"
    and s': "\<And>k. sheets w' k = sheets w1 k @
            concat (map (\<lambda>(i, item). case produced (es i) t item of None \<Rightarrow> []
                    | Some l \<Rightarrow> if remote (es i) = RemoteOK \<and> map_of (snd item) ''id'' = k
                         then [append_list l t] else []) (enumerate (Suc i) rest))"
    and z': "sleeps w' = sleeps w1"
    by blast
  have "poll_sensors es i t f (item # rest) w = Inr w'"
    by (simp add: p p')
  moreover have "\<forall>p. f = Some p \<longrightarrow> log_text p w' = log_text p w @
            concat (map (\<lambda>(i, item). case produced (es i) t item of None \<Rightarrow> []
                    | Some l \<Rightarrow> format_line l t (map_of (snd item) ''pin'')) (enumerate i (item # rest)))"
    using l l' by simp
  moreover have "f = None \<longrightarrow> files w' = files w \<and> pending w' = pending w"
    using n n' by simp
  moreover have "api_calls w' = api_calls w @
            concat (map (\<lambda>(i, item). case produced (es i) t item of None \<Rightarrow> []
                    | Some l \<Rightarrow> if remote (es i) = AuthFails \<or> remote (es i) = OpenFails then []
                         else [(map_of (snd item) ''id'', append_list l t)]) (enumerate i (item # rest)))"
    using a a' by simp
  moreover have "\<forall>k. sheets w' k = sheets w k @
            concat (map (\<lambda>(i, item). case produced (es i) t item of None \<Rightarrow> []
                    | Some l \<Rightarrow> if remote (es i) = RemoteOK \<and> map_of (snd item) ''id'' = k
                         then [append_list l t] else []) (enumerate i (item # rest)))"
    using s s' by simp
  moreover have "sleeps w' = sleeps w"
    using z z' by simp
  ultimately show ?case by blast
qed

lemma produced_example:
  "produced (example_steps i) example_time item = Some example_reading"
proof -
  have "read_retry (example_steps i) DHT22 (map_of (snd item) ''pin'') =
          Inr (Some example_humidity, Some example_temp_c)"
    by (simp add: example_steps_def example_driver_def)
  from read_sensor_some [of "read_retry (example_steps i)" DHT22 "map_of (snd item) ''pin''"
      example_humidity example_temp_c example_time empty_world, OF this]
  show ?thesis
    by (simp only: produced_def example_fahrenheit example_clock example_reading_def
        sum.case prod.case)
qed

text \<open>
  Claim C2. In a pass over the sensors in which the driver raises for no sensor, whatever
  the flushes of the output file and the spreadsheet service do, and whether or not the
  output file could be opened: the \<^verbatim>\<open>for\<close> loop ends without an exception; the line of
  every reading produced in the pass has been written to the output file object, in order
  (a failed flush leaves it in the buffer), independently of all spreadsheet outcomes; and
  for every reading produced in the pass \<^verbatim>\<open>append_row\<close> has been called on its spreadsheet
  unless the service itself failed before (credentials or opening), and the row is on the
  sheet whenever the service accepted it, independently of all outcomes of the local
  write.
\<close>

theorem write_paths_independent:
  assumes "\<forall>i < length sheet_ids.
             \<exists>r. read_retry (es i) DHT22 (map_of (snd (sheet_ids ! i)) ''pin'') = Inr r"
  shows "\<exists>w'. poll_sensors es 0 read_time f sheet_ids w = Inr w'
     \<and> (\<forall>p. f = Some p \<longrightarrow> log_text p w' = log_text p w @
            concat (map (\<lambda>(i, item). case produced (es i) read_time item of None \<Rightarrow> []
                    | Some l \<Rightarrow> format_line l read_time (map_of (snd item) ''pin''))
                    (enumerate 0 sheet_ids)))
     \<and> api_calls w' = api_calls w @
            concat (map (\<lambda>(i, item). case produced (es i) read_time item of None \<Rightarrow> []
                    | Some l \<Rightarrow> if remote (es i) = AuthFails \<or> remote (es i) = OpenFails then []
                         else [(map_of (snd item) ''id'', append_list l read_time)])
                    (enumerate 0 sheet_ids))
     \<and> (\<forall>k. sheets w' k = sheets w k @
            concat (map (\<lambda>(i, item). case produced (es i) read_time item of None \<Rightarrow> []
                    | Some l \<Rightarrow> if remote (es i) = RemoteOK \<and> map_of (snd item) ''id'' = k
                         then [append_list l read_time] else [])
                    (enumerate 0 sheet_ids)))"
  using poll_sensors_char [of sheet_ids es 0 read_time f w] assms by auto

lemma log_text_opened: "log_text log_path opened_world = header"
  by (simp add: log_text_def opened_world_def empty_world_def file_content_def)

theorem write_paths_independent_witness:
  "\<exists>w'. poll_sensors example_steps 0 example_time (Some log_path) [example_item, outside_item]
          opened_world = Inr w'
     \<and> log_text log_path w' = header @ format_line example_reading example_time (Some ''4'')
          @ format_line example_reading example_time (Some ''17'')
     \<and> api_calls w' = [(Some ''XYZ789'', append_list example_reading example_time)]
     \<and> sheets w' (Some ''XYZ789'') = [append_list example_reading example_time]
     \<and> sheets w' (Some ''ABC123'') = []"
proof -
  have h: "\<forall>i < length [example_item, outside_item].
      \<exists>r. read_retry (example_steps i) DHT22
             (map_of (snd ([example_item, outside_item] ! i)) ''pin'') = Inr r"
    by (simp add: example_steps_def example_driver_def)
  from write_paths_independent [OF h, of example_time "Some log_path" opened_world]
  obtain w' where
    p: "poll_sensors example_steps 0 example_time (Some log_path) [example_item, outside_item]
          opened_world = Inr w'"
    and l: "log_text log_path w' = log_text log_path opened_world @
            concat (map (\<lambda>(i, item). case produced (example_steps i) example_time item of None \<Rightarrow> []
                    | Some l \<Rightarrow> format_line l example_time (map_of (snd item) ''pin''))
                    (enumerate 0 [example_item, outside_item]))"
    and a: "api_calls w' = api_calls opened_world @
            concat (map (\<lambda>(i, item). case produced (example_steps i) example_time item of None \<Rightarrow> []
                    | Some l \<Rightarrow> if remote (example_steps i) = AuthFails \<or> remote (example_steps i) = OpenFails then []
                         else [(map_of (snd item) ''id'', append_list l example_time)])
                    (enumerate 0 [example_item, outside_item]))"
    and s: "\<And>k. sheets w' k = sheets opened_world k @
            concat (map (\<lambda>(i, item). case produced (example_steps i) example_time item of None \<Rightarrow> []
                    | Some l \<Rightarrow> if remote (example_steps i) = RemoteOK \<and> map_of (snd item) ''id'' = k
                         then [append_list l example_time] else [])
                    (enumerate 0 [example_item, outside_item]))"
    by blast
  have l': "log_text log_path w' = header @ format_line example_reading example_time (Some ''4'')
          @ format_line example_reading example_time (Some ''17'')"
    using l unfolding produced_example
    by (simp add: log_text_opened example_item_def outside_item_def)
  have a': "api_calls w' = [(Some ''XYZ789'', append_list example_reading example_time)]"
    using a unfolding produced_example by (simp add: example_item_def outside_item_def example_steps_def
        opened_world_def empty_world_def)
  have s1: "sheets w' (Some ''XYZ789'') = [append_list example_reading example_time]"
    using s [of "Some ''XYZ789''"]
    unfolding produced_example
    by (simp add: example_item_def outside_item_def example_steps_def
        opened_world_def empty_world_def)
  have s2: "sheets w' (Some ''ABC123'') = []"
    using s [of "Some ''ABC123''"]
    unfolding produced_example
    by (simp add: example_item_def outside_item_def example_steps_def
        opened_world_def empty_world_def)
  show ?thesis using p l' a' s1 s2 by blast
qed

subsection \<open>The sleep\<close>









subsection \<open>Path strings\<close>

lemma split_on_append_sep:
  "split_on sep cur (xs @ sep # ys) = split_on sep cur xs @ split_on sep [] ys"
  by (induction xs arbitrary: cur) auto

lemma split_on_no_sep: "sep \<notin> set ys \<Longrightarrow> split_on sep cur ys = [cur @ ys]"
  by (induction ys arbitrary: cur) auto

lemma components_snoc_sep: "components (a @ [SEP]) = components a"
  using split_on_append_sep [of SEP "[]" a "[]"] by (simp add: components_def)

lemma components_append_name:
  "name \<noteq> [] \<Longrightarrow> SEP \<notin> set name \<Longrightarrow> components (a @ SEP # name) = components a @ [name]"
  by (simp add: components_def split_on_append_sep split_on_no_sep)

lemma components_name: "name \<noteq> [] \<Longrightarrow> SEP \<notin> set name \<Longrightarrow> components name = [name]"
  by (simp add: components_def split_on_no_sep)

lemma components_join:
  assumes "name \<noteq> []" "SEP \<notin> set name"
  shows "components (os_path_join a name) = components a @ [name]"
proof (cases "a = []")
  case True
  with assms show ?thesis
    by (simp add: os_path_join_def components_name) (simp add: components_def)
next
  case False
  from assms have h: "hd name \<noteq> SEP"
    by (cases name) auto
  show ?thesis
  proof (cases "last a = SEP")
    case True
    with False have a: "a = butlast a @ [SEP]"
      by (metis append_butlast_last_id)
    have "os_path_join a name = butlast a @ SEP # name"
      using assms h True False a by (simp add: os_path_join_def)
    moreover have "components a = components (butlast a)"
      using a components_snoc_sep [of "butlast a"] by simp
    ultimately show ?thesis
      using assms by (simp add: components_append_name)
  next
    case l: False
    with False assms h show ?thesis
      by (simp add: os_path_join_def components_append_name)
  qed
qed

lemma basename_join:
  assumes "name \<noteq> []" "SEP \<notin> set name"
  shows "os_path_basename (os_path_join a name) = name"
proof -
  from assms have h: "hd name \<noteq> SEP"
    by (cases name) auto
  have n: "x \<noteq> SEP" if "x \<in> set (rev name)" for x
    using that assms by auto
  have t: "takeWhile (\<lambda>c. c \<noteq> SEP) (rev name @ r) = rev name @ takeWhile (\<lambda>c. c \<noteq> SEP) r" for r
    by (rule takeWhile_append2) (rule n)
  consider "a = []" | "a \<noteq> []" "last a = SEP" | "a \<noteq> []" "last a \<noteq> SEP"
    by blast
  then show ?thesis
  proof cases
    case 1
    have "os_path_join a name = name"
      using 1 h assms by (simp add: os_path_join_def)
    moreover have "takeWhile (\<lambda>c. c \<noteq> SEP) (rev name) = rev name"
      using n by (simp add: takeWhile_eq_all_conv)
    then have "os_path_basename name = name"
      by (simp only: os_path_basename_def rev_rev_ident)
    ultimately show ?thesis by simp
  next
    case 2
    then obtain b where b: "a = b @ [SEP]"
      by (metis append_butlast_last_id)
    have "os_path_join a name = b @ SEP # name"
      using 2 h assms b by (simp add: os_path_join_def)
    moreover have "os_path_basename (b @ SEP # name) = name"
      using t [of "SEP # rev b"] by (simp add: os_path_basename_def)
    ultimately show ?thesis by simp
  next
    case 3
    have "os_path_join a name = a @ SEP # name"
      using 3 h assms by (simp add: os_path_join_def)
    moreover have "os_path_basename (a @ SEP # name) = name"
      using t [of "SEP # rev a"] by (simp add: os_path_basename_def)
    ultimately show ?thesis by simp
  qed
qed

lemma components_rstrip: "components (rev (dropWhile (\<lambda>c. c = SEP) (rev s))) = components s"
  by (induction s rule: rev_induct) (auto simp: components_snoc_sep)

lemma split_star:
  assumes "dir_path \<noteq> []" "last dir_path = SEP"
  shows "snd (os_path_split (dir_path @ ''*'')) = ''*''"
    and "components (fst (os_path_split (dir_path @ ''*''))) = components dir_path"
proof -
  from assms obtain b where b: "dir_path = b @ [SEP]"
    by (metis append_butlast_last_id)
  show "snd (os_path_split (dir_path @ ''*'')) = ''*''"
    by (simp add: os_path_split_def os_path_basename_def b Let_def)
  have h: "rev (dropWhile (\<lambda>c. c \<noteq> SEP) (rev (dir_path @ ''*''))) = dir_path"
    by (simp add: b)
  have "fst (os_path_split (dir_path @ ''*'')) =
          (if \<exists>c \<in> set dir_path. c \<noteq> SEP
           then rev (dropWhile (\<lambda>c. c = SEP) (rev dir_path)) else dir_path)"
    unfolding os_path_split_def Let_def h using assms(1) by simp
  then show "components (fst (os_path_split (dir_path @ ''*''))) = components dir_path"
    by (simp add: components_rstrip)
qed

lemma glob_star_dir:
  assumes "dir_path \<noteq> []" "last dir_path = SEP"
  shows "glob_star fs dir_path =
           (if is_dir fs (components dir_path)
            then map (os_path_join (fst (os_path_split (dir_path @ ''*''))))
                   (filter (\<lambda>name. hd name \<noteq> DOT) (listdir fs (components dir_path)))
            else [])"
  using split_star [OF assms]
  by (simp add: glob_star_def case_prod_unfold Let_def)

subsection \<open>The loader\<close>

lemma nest_loop_append:
  "nest_loop (xs @ ys) d =
     (case nest_loop xs d of Inl e \<Rightarrow> Inl e | Inr d1 \<Rightarrow> nest_loop ys d1)"
  by (induction xs arbitrary: d) (auto split: list.splits)

lemma nest_loop_untouched:
  assumes "nest_loop ys d = Inr nd" and "\<forall>l \<in> set ys. \<forall>v. py_split l \<noteq> [k, v]"
  shows "map_of nd k = map_of d k"
  using assms
proof (induction ys arbitrary: d)
  case Nil
  then show ?case by simp
next
  case (Cons l ys)
  from Cons.prems(1) obtain a b where ab: "py_split l = [a, b]"
    and r: "nest_loop ys (AList.update a b d) = Inr nd"
    by (auto split: list.splits)
  from Cons.prems(2) ab have "a \<noteq> k" by auto
  moreover from Cons.IH [OF r] Cons.prems(2)
  have "map_of nd k = map_of (AList.update a b d) k" by simp
  ultimately show ?case by (simp add: update_conv')
qed

lemma nest_loop_total:
  assumes "\<forall>l \<in> set ls. \<exists>a b. py_split l = [a, b]"
  shows "\<exists>nd. nest_loop ls d = Inr nd"
  using assms by (induction ls arbitrary: d) auto

lemma nest_loop_last_wins:
  assumes "\<forall>l \<in> set (ls1 @ [l2] @ ls3). \<exists>a b. py_split l = [a, b]"
    and "py_split l2 = [k, v2]"
    and "\<forall>l \<in> set ls3. \<forall>v. py_split l \<noteq> [k, v]"
  shows "\<exists>nd. nest_loop (ls1 @ [l2] @ ls3) d = Inr nd \<and> map_of nd k = Some v2"
proof -
  from assms(1) nest_loop_total [of ls1 d] obtain d1 where d1: "nest_loop ls1 d = Inr d1"
    by auto
  from assms(1) nest_loop_total [of ls3 "AList.update k v2 d1"] obtain nd where
    nd: "nest_loop ls3 (AList.update k v2 d1) = Inr nd"
    by auto
  have "nest_loop (ls1 @ [l2] @ ls3) d = Inr nd"
    by (simp add: nest_loop_append d1 assms(2) nd)
  moreover have "map_of nd k = Some v2"
    using nest_loop_untouched [OF nd assms(3)] by (simp add: update_conv')
  ultimately show ?thesis by blast
qed

lemma url_files_loop_files:
  "url_files_loop sl ps d w = Inr (d', w') \<Longrightarrow> files w' = files w"
proof (induction ps arbitrary: d w)
  case Nil
  then show ?case by simp
next
  case (Cons p ps)
  then show ?case
    by (auto simp: Let_def split: if_splits sum.splits)
qed

lemma url_files_loop_append:
  "url_files_loop sl (xs @ ys) d w =
     (case url_files_loop sl xs d w of Inl e \<Rightarrow> Inl e | Inr (d1, w1) \<Rightarrow> url_files_loop sl ys d1 w1)"
  by (induction xs arbitrary: d w) (auto simp: Let_def split: sum.splits)

lemma url_files_loop_untouched:
  assumes "url_files_loop sl qs d w = Inr (d', w')"
    and "\<forall>q \<in> set qs. list_ex (\<lambda>s. py_in s (splitext_root (os_path_basename q))) sl
            \<longrightarrow> splitext_root (os_path_basename q) \<noteq> k"
  shows "map_of d' k = map_of d k"
  using assms
proof (induction qs arbitrary: d w)
  case Nil
  then show ?case by simp
next
  case (Cons q qs)
  show ?case
  proof (cases "list_ex (\<lambda>s. py_in s (splitext_root (os_path_basename q))) sl")
    case False
    with Cons.prems(1) obtain w1 where "url_files_loop sl qs d w1 = Inr (d', w')"
      by (auto simp: Let_def)
    from Cons.IH [OF this] Cons.prems(2) show ?thesis by simp
  next
    case True
    with Cons.prems(1) obtain nd w1 where
      r: "url_files_loop sl qs (AList.update (splitext_root (os_path_basename q)) nd d) w1 = Inr (d', w')"
      by (auto simp: Let_def split: sum.splits)
    from True Cons.prems(2) have "splitext_root (os_path_basename q) \<noteq> k" by simp
    moreover from Cons.IH [OF r] Cons.prems(2)
    have "map_of d' k = map_of (AList.update (splitext_root (os_path_basename q)) nd d) k" by simp
    ultimately show ?thesis by (simp add: update_conv')
  qed
qed

lemma url_files_loop_step:
  assumes "url_files_loop sl (p # qs) d w = Inr (d', w')"
    and "list_ex (\<lambda>s. py_in s (splitext_root (os_path_basename p))) sl"
  shows "\<exists>content nd w1. open_read (files w) p = Inr content
           \<and> nest_loop (file_lines content) [] = Inr nd
           \<and> url_files_loop sl qs (AList.update (splitext_root (os_path_basename p)) nd d) w1
               = Inr (d', w')"
  using assms by (auto simp: Let_def split: sum.splits)

lemma url_files_loop_last_wins:
  assumes "url_files_loop sl (ps @ [p] @ qs) d w = Inr (d', w')"
    and "list_ex (\<lambda>s. py_in s (splitext_root (os_path_basename p))) sl"
    and "\<forall>q \<in> set qs. list_ex (\<lambda>s. py_in s (splitext_root (os_path_basename q))) sl
            \<longrightarrow> splitext_root (os_path_basename q) \<noteq> splitext_root (os_path_basename p)"
  shows "\<exists>content nd. open_read (files w) p = Inr content
           \<and> nest_loop (file_lines content) [] = Inr nd
           \<and> map_of d' (splitext_root (os_path_basename p)) = Some nd"
proof -
  from assms(1) obtain d1 w1 where
    a: "url_files_loop sl ps d w = Inr (d1, w1)"
    and b: "url_files_loop sl (p # qs) d1 w1 = Inr (d', w')"
    by (auto simp: url_files_loop_append split: sum.splits)
  from url_files_loop_step [OF b assms(2)] obtain content nd w2 where
    c: "open_read (files w1) p = Inr content"
    and n: "nest_loop (file_lines content) [] = Inr nd"
    and r: "url_files_loop sl qs (AList.update (splitext_root (os_path_basename p)) nd d1) w2
               = Inr (d', w')"
    by blast
  have "map_of d' (splitext_root (os_path_basename p)) = Some nd"
    using url_files_loop_untouched [OF r assms(3)] by (simp add: update_conv')
  moreover have "files w1 = files w"
    using a by (rule url_files_loop_files)
  ultimately show ?thesis using c n by auto
qed

lemma url_files_loop_keys:
  assumes "url_files_loop sl ps d w = Inr (d', w')"
  shows "fst ` set d' = fst ` set d \<union>
           {splitext_root (os_path_basename p) | p.
              p \<in> set ps \<and> list_ex (\<lambda>s. py_in s (splitext_root (os_path_basename p))) sl}"
  using assms
proof (induction ps arbitrary: d w)
  case Nil
  then show ?case by simp
next
  case (Cons p ps)
  show ?case
  proof (cases "list_ex (\<lambda>s. py_in s (splitext_root (os_path_basename p))) sl")
    case False
    with Cons.prems obtain w1 where "url_files_loop sl ps d w1 = Inr (d', w')"
      by (auto simp: Let_def)
    from Cons.IH [OF this] False show ?thesis by auto
  next
    case True
    from url_files_loop_step [OF Cons.prems True] obtain nd w1 where
      r: "url_files_loop sl ps (AList.update (splitext_root (os_path_basename p)) nd d) w1 = Inr (d', w')"
      by blast
    from Cons.IH [OF r] True show ?thesis
      by (auto simp: dom_update)
  qed
qed

lemma url_files_loop_distinct:
  assumes "url_files_loop sl ps d w = Inr (d', w')" and "distinct (map fst d)"
  shows "distinct (map fst d')"
  using assms
proof (induction ps arbitrary: d w)
  case Nil
  then show ?case by simp
next
  case (Cons p ps)
  show ?case
  proof (cases "list_ex (\<lambda>s. py_in s (splitext_root (os_path_basename p))) sl")
    case False
    with Cons.prems obtain w1 where "url_files_loop sl ps d w1 = Inr (d', w')"
      by (auto simp: Let_def)
    from Cons.IH [OF this Cons.prems(2)] show ?thesis .
  next
    case True
    from url_files_loop_step [OF Cons.prems(1) True] obtain nd w1 where
      r: "url_files_loop sl ps (AList.update (splitext_root (os_path_basename p)) nd d) w1 = Inr (d', w')"
      by blast
    from Cons.IH [OF r] Cons.prems(2) show ?thesis
      by (simp add: distinct_update)
  qed
qed


lemma filter_key_distinct:
  assumes "distinct (map fst al)" and "map_of al k = Some v"
  shows "length (filter (\<lambda>e. fst e = k) al) = 1"
  using assms
proof (induction al)
  case Nil
  then show ?case by simp
next
  case (Cons e al)
  show ?case
  proof (cases "fst e = k")
    case True
    with Cons.prems(1) have "k \<notin> fst ` set al" by auto
    then have "filter (\<lambda>e. fst e = k) al = []"
      by (auto simp: filter_empty_conv)
    with True show ?thesis by simp
  next
    case False
    with Cons show ?thesis by (cases e) auto
  qed
qed

text \<open>
  Claim C9. The mapping is keyed by the base name without extension. When two of the
  scanned paths have the same such name, which the allow-list matches, and the loader
  returns, the mapping has exactly one entry under that name and it holds the fields of
  the file scanned last, whatever the earlier file held. Within one file whose lines all
  have two fields, a key that comes twice raises nothing and keeps the value of its last
  line.
\<close>

theorem later_file_overwrites:
  "(glob_star (files w) dir_path = ps @ [p1] @ qs @ [p2] @ rs
      \<and> splitext_root (os_path_basename p1) = k
      \<and> splitext_root (os_path_basename p2) = k
      \<and> list_ex (\<lambda>s. py_in s k) sensor_list
      \<and> (\<forall>r \<in> set rs. splitext_root (os_path_basename r) \<noteq> k)
      \<and> open_url_files dir_path sensor_list w = Inr (url_dict, w')
    \<longrightarrow> (\<exists>content nd. open_read (files w) p2 = Inr content
           \<and> nest_loop (file_lines content) [] = Inr nd
           \<and> map_of url_dict k = Some nd
           \<and> length (filter (\<lambda>e. fst e = k) url_dict) = 1))
   \<and> ((\<forall>l \<in> set (ls1 @ [l1] @ ls2 @ [l2] @ ls3). \<exists>a b. py_split l = [a, b])
      \<and> py_split l1 = [key, v1] \<and> py_split l2 = [key, v2]
      \<and> (\<forall>l \<in> set ls3. \<forall>v. py_split l \<noteq> [key, v])
    \<longrightarrow> (\<exists>nd. nest_loop (ls1 @ [l1] @ ls2 @ [l2] @ ls3) [] = Inr nd
           \<and> map_of nd key = Some v2))"
proof (intro conjI impI)
  assume a: "glob_star (files w) dir_path = ps @ [p1] @ qs @ [p2] @ rs
      \<and> splitext_root (os_path_basename p1) = k
      \<and> splitext_root (os_path_basename p2) = k
      \<and> list_ex (\<lambda>s. py_in s k) sensor_list
      \<and> (\<forall>r \<in> set rs. splitext_root (os_path_basename r) \<noteq> k)
      \<and> open_url_files dir_path sensor_list w = Inr (url_dict, w')"
  then have g: "glob_star (files w) dir_path = (ps @ [p1] @ qs) @ [p2] @ rs"
    and o: "open_url_files dir_path sensor_list w = Inr (url_dict, w')"
    by simp_all
  have l: "url_files_loop sensor_list ((ps @ [p1] @ qs) @ [p2] @ rs) [] w = Inr (url_dict, w')"
    using o unfolding open_url_files_def g .
  have h: "list_ex (\<lambda>s. py_in s (splitext_root (os_path_basename p2))) sensor_list"
    using a by simp
  have u: "\<forall>q \<in> set rs. list_ex (\<lambda>s. py_in s (splitext_root (os_path_basename q))) sensor_list
            \<longrightarrow> splitext_root (os_path_basename q) \<noteq> splitext_root (os_path_basename p2)"
    using a by simp
  from url_files_loop_last_wins [OF l h u] obtain content nd where
    c: "open_read (files w) p2 = Inr content"
    and n: "nest_loop (file_lines content) [] = Inr nd"
    and m: "map_of url_dict k = Some nd"
    using a by auto
  have "distinct (map fst url_dict)"
    using url_files_loop_distinct [OF l] by simp
  then have "length (filter (\<lambda>e. fst e = k) url_dict) = 1"
    using m by (rule filter_key_distinct)
  with c n m show "\<exists>content nd. open_read (files w) p2 = Inr content
           \<and> nest_loop (file_lines content) [] = Inr nd
           \<and> map_of url_dict k = Some nd
           \<and> length (filter (\<lambda>e. fst e = k) url_dict) = 1"
    by blast
next
  assume b: "(\<forall>l \<in> set (ls1 @ [l1] @ ls2 @ [l2] @ ls3). \<exists>a b. py_split l = [a, b])
      \<and> py_split l1 = [key, v1] \<and> py_split l2 = [key, v2]
      \<and> (\<forall>l \<in> set ls3. \<forall>v. py_split l \<noteq> [key, v])"
  then have "\<forall>l \<in> set ((ls1 @ [l1] @ ls2) @ [l2] @ ls3). \<exists>a b. py_split l = [a, b]"
    by simp
  from nest_loop_last_wins [OF this, of key v2 "[]"] b
  show "\<exists>nd. nest_loop (ls1 @ [l1] @ ls2 @ [l2] @ ls3) [] = Inr nd \<and> map_of nd key = Some v2"
    by simp
qed

lemma example_glob:
  "glob_star (files config_world) ''/home/pi/url/'' =
     [''/home/pi/url/home_livingroom.txt'', ''/home/pi/url/notes.txt'',
      ''/home/pi/url/home_livingroom.conf'']"
  by (simp add: glob_star_def os_path_split_def os_path_basename_def os_path_join_def
      components_def is_dir_def listdir_def config_world_def empty_world_def Let_def)

lemma example_stems:
  "splitext_root (os_path_basename ''/home/pi/url/home_livingroom.txt'') = ''home_livingroom''"
  "splitext_root (os_path_basename ''/home/pi/url/notes.txt'') = ''notes''"
  "splitext_root (os_path_basename ''/home/pi/url/home_livingroom.conf'') = ''home_livingroom''"
  by (simp_all add: splitext_root_def os_path_basename_def)

lemma example_hits:
  "list_ex (\<lambda>s. py_in s ''home_livingroom'') [''home_livingroom'', ''home_outside'']"
  "\<not> list_ex (\<lambda>s. py_in s ''notes'') [''home_livingroom'', ''home_outside'']"
  by simp_all

lemma example_parse:
  "nest_loop (file_lines livingroom_txt) []
     = Inr [(''id'', ''ABC123''), (''pin'', ''4''), (''name'', ''home_livingroom'')]"
  "nest_loop (file_lines livingroom_conf) [] = Inr [(''id'', ''DEF456''), (''pin'', ''6'')]"
  by (simp_all add: file_lines_def py_split_def is_space_def livingroom_txt_def
      livingroom_conf_def)

lemma example_read:
  "open_read (files config_world) ''/home/pi/url/home_livingroom.txt'' = Inr livingroom_txt"
  "open_read (files config_world) ''/home/pi/url/home_livingroom.conf'' = Inr livingroom_conf"
  by (simp_all add: open_read_def components_def config_world_def empty_world_def)

lemma example_load:
  "open_url_files ''/home/pi/url/'' [''home_livingroom'', ''home_outside''] config_world =
     Inr ([(''home_livingroom'', [(''id'', ''DEF456''), (''pin'', ''6'')])],
          config_world\<lparr>stdout :=
            [''working on /home/pi/url/home_livingroom.txt'', ''file_string: home_livingroom'',
             ''Matched string'',
             ''working on /home/pi/url/notes.txt'', ''file_string: notes'', ''no match'',
             ''working on /home/pi/url/home_livingroom.conf'', ''file_string: home_livingroom'',
             ''Matched string'']\<rparr>)"
proof -
  have s: "stdout config_world = []"
    by (simp add: config_world_def empty_world_def)
  show ?thesis
    unfolding open_url_files_def example_glob
    by (simp add: example_stems example_hits example_read example_parse py_print_def s Let_def
        del: list_ex_Cons_iff py_in.simps)
qed

theorem later_file_overwrites_witness:
  "(\<exists>content nd. open_read (files config_world) ''/home/pi/url/home_livingroom.conf'' = Inr content
        \<and> nest_loop (file_lines content) [] = Inr nd
        \<and> map_of [(''home_livingroom'', [(''id'', ''DEF456''), (''pin'', ''6'')])]
              ''home_livingroom'' = Some nd
        \<and> length (filter (\<lambda>e. fst e = ''home_livingroom'')
              [(''home_livingroom'', [(''id'', ''DEF456''), (''pin'', ''6'')])]) = 1)
   \<and> (\<exists>nd. nest_loop ([''id'' @ [TAB] @ ''DEF456'' @ [LF]] @ [''pin'' @ [TAB] @ ''5'' @ [LF]] @ []
                        @ [''pin'' @ [TAB] @ ''6'' @ [LF]] @ []) [] = Inr nd
        \<and> map_of nd ''pin'' = Some ''6'')"
proof -
  note t = later_file_overwrites [where w = config_world and dir_path = "''/home/pi/url/''"
      and ps = "[]" and ?p1.0 = "''/home/pi/url/home_livingroom.txt''"
      and qs = "[''/home/pi/url/notes.txt'']"
      and ?p2.0 = "''/home/pi/url/home_livingroom.conf''" and rs = "[]"
      and k = "''home_livingroom''" and sensor_list = "[''home_livingroom'', ''home_outside'']"
      and url_dict = "[(''home_livingroom'', [(''id'', ''DEF456''), (''pin'', ''6'')])]"
      and w' = "config_world\<lparr>stdout :=
            [''working on /home/pi/url/home_livingroom.txt'', ''file_string: home_livingroom'',
             ''Matched string'',
             ''working on /home/pi/url/notes.txt'', ''file_string: notes'', ''no match'',
             ''working on /home/pi/url/home_livingroom.conf'', ''file_string: home_livingroom'',
             ''Matched string'']\<rparr>"
      and ?ls1.0 = "[''id'' @ [TAB] @ ''DEF456'' @ [LF]]" and ?l1.0 = "''pin'' @ [TAB] @ ''5'' @ [LF]"
      and ?ls2.0 = "[]" and ?l2.0 = "''pin'' @ [TAB] @ ''6'' @ [LF]" and ?ls3.0 = "[]"
      and key = "''pin''" and ?v1.0 = "''5''" and ?v2.0 = "''6''"]
  have a: "glob_star (files config_world) ''/home/pi/url/'' =
        [] @ [''/home/pi/url/home_livingroom.txt''] @ [''/home/pi/url/notes.txt'']
           @ [''/home/pi/url/home_livingroom.conf''] @ []"
    by (simp add: example_glob)
  have b: "\<forall>l \<in> set ([''id'' @ [TAB] @ ''DEF456'' @ [LF]] @ [''pin'' @ [TAB] @ ''5'' @ [LF]] @ []
                        @ [''pin'' @ [TAB] @ ''6'' @ [LF]] @ []). \<exists>a b. py_split l = [a, b]"
    by (simp add: py_split_def is_space_def)
  have c: "py_split (''pin'' @ [TAB] @ ''5'' @ [LF]) = [''pin'', ''5'']"
    "py_split (''pin'' @ [TAB] @ ''6'' @ [LF]) = [''pin'', ''6'']"
    by (simp_all add: py_split_def is_space_def)
  from t a b c example_stems example_hits(1) example_load
  show ?thesis
    by simp
qed

lemma listdir_names:
  assumes "wf_names fs" and "name \<in> set (listdir fs d)"
  shows "name \<noteq> [] \<and> SEP \<notin> set name"
proof -
  from assms(2) obtain e where e: "e \<in> set fs" "fst e \<noteq> []" "name = last (fst e)"
    by (auto simp: listdir_def)
  then have "name \<in> set (fst e)" by simp
  with assms(1) e(1) show ?thesis
    by (auto simp: wf_names_def)
qed

lemma open_read_file:
  "components p \<noteq> [] \<Longrightarrow>
   open_read fs p = Inr content \<longleftrightarrow> map_of fs (components p) = Some (File content)"
  by (auto simp: open_read_def split: option.splits node.splits)

text \<open>
  Claim C6, as amended. For an existing configuration directory given with its trailing
  separator, whenever the loader returns: the keys of the mapping are exactly the base
  names, extension stripped, of the entries of the directory whose name does not start
  with a dot and whose stripped name contains at least one allow-list string; and every
  key is mapped to the fields parsed from the entry scanned last among those with that
  stripped name.
\<close>

theorem loader_returns_matching_files:
  assumes magic: "\<not> has_magic dir_path"
    and sep: "dir_path \<noteq> []" "last dir_path = SEP"
    and dir: "is_dir (files w) (components dir_path)"
    and wf: "wf_names (files w)"
    and ok: "open_url_files dir_path sensor_list w = Inr (url_dict, w')"
  shows "fst ` set url_dict =
           {splitext_root name | name.
              name \<in> set (listdir (files w) (components dir_path)) \<and> hd name \<noteq> DOT
              \<and> list_ex (\<lambda>s. py_in s (splitext_root name)) sensor_list}
     \<and> (\<forall>(k, nd) \<in> set url_dict.
           \<exists>ns1 name ns2 content.
             filter (\<lambda>name. hd name \<noteq> DOT) (listdir (files w) (components dir_path))
               = ns1 @ name # ns2
             \<and> splitext_root name = k
             \<and> list_ex (\<lambda>s. py_in s k) sensor_list
             \<and> (\<forall>n \<in> set ns2. splitext_root n \<noteq> k)
             \<and> map_of (files w) (components dir_path @ [name]) = Some (File content)
             \<and> nest_loop (file_lines content) [] = Inr nd)"
proof -
  define dn where "dn = fst (os_path_split (dir_path @ ''*''))"
  define names where
    "names = filter (\<lambda>name. hd name \<noteq> DOT) (listdir (files w) (components dir_path))"
  define stem where "stem = (\<lambda>p. splitext_root (os_path_basename p))"
  define hit where "hit = (\<lambda>p. list_ex (\<lambda>s. py_in s (stem p)) sensor_list)"
  have g: "glob_star (files w) dir_path = map (os_path_join dn) names"
    using glob_star_dir [OF sep, of "files w"] dir by (simp add: dn_def names_def)
  have nm: "name \<noteq> [] \<and> SEP \<notin> set name" if "name \<in> set names" for name
    using that listdir_names [OF wf] by (auto simp: names_def)
  have st: "stem (os_path_join dn name) = splitext_root name" if "name \<in> set names" for name
    using nm [OF that] by (simp add: stem_def basename_join)
  have cp: "components (os_path_join dn name) = components dir_path @ [name]"
    if "name \<in> set names" for name
    using nm [OF that] split_star(2) [OF sep] by (simp add: components_join dn_def)
  have l: "url_files_loop sensor_list (map (os_path_join dn) names) [] w = Inr (url_dict, w')"
    using ok by (simp add: open_url_files_def g)
  have keys: "fst ` set url_dict =
      {stem p | p. p \<in> set (map (os_path_join dn) names) \<and> hit p}"
    using url_files_loop_keys [OF l] by (simp add: stem_def hit_def)
  have k1: "fst ` set url_dict =
           {splitext_root name | name.
              name \<in> set (listdir (files w) (components dir_path)) \<and> hd name \<noteq> DOT
              \<and> list_ex (\<lambda>s. py_in s (splitext_root name)) sensor_list}"
  proof -
    have "{stem p | p. p \<in> set (map (os_path_join dn) names) \<and> hit p} =
          {splitext_root name | name. name \<in> set names
              \<and> list_ex (\<lambda>s. py_in s (splitext_root name)) sensor_list}"
    proof (intro set_eqI iffI)
      fix x
      assume "x \<in> {stem p | p. p \<in> set (map (os_path_join dn) names) \<and> hit p}"
      then obtain n where n: "n \<in> set names" "hit (os_path_join dn n)"
        "x = stem (os_path_join dn n)"
        by auto
      then have "x = splitext_root n"
        "list_ex (\<lambda>s. py_in s (splitext_root n)) sensor_list"
        using st [OF n(1)] by (simp_all add: hit_def)
      with n(1) show "x \<in> {splitext_root name | name. name \<in> set names
              \<and> list_ex (\<lambda>s. py_in s (splitext_root name)) sensor_list}"
        by blast
    next
      fix x
      assume "x \<in> {splitext_root name | name. name \<in> set names
              \<and> list_ex (\<lambda>s. py_in s (splitext_root name)) sensor_list}"
      then obtain n where n: "n \<in> set names" "x = splitext_root n"
        "list_ex (\<lambda>s. py_in s (splitext_root n)) sensor_list"
        by auto
      then have "hit (os_path_join dn n)" "x = stem (os_path_join dn n)"
        using st [OF n(1)] by (simp_all add: hit_def)
      moreover have "os_path_join dn n \<in> set (map (os_path_join dn) names)"
        using n(1) by simp
      ultimately show "x \<in> {stem p | p. p \<in> set (map (os_path_join dn) names) \<and> hit p}"
        by blast
    qed
    also have "\<dots> = {splitext_root name | name.
              name \<in> set (listdir (files w) (components dir_path)) \<and> hd name \<noteq> DOT
              \<and> list_ex (\<lambda>s. py_in s (splitext_root name)) sensor_list}"
      by (auto simp: names_def)
    finally show ?thesis using keys by simp
  qed
  have dist: "distinct (map fst url_dict)"
    using url_files_loop_distinct [OF l] by simp
  have v: "\<exists>ns1 name ns2 content.
             names = ns1 @ name # ns2
             \<and> splitext_root name = k
             \<and> list_ex (\<lambda>s. py_in s k) sensor_list
             \<and> (\<forall>n \<in> set ns2. splitext_root n \<noteq> k)
             \<and> map_of (files w) (components dir_path @ [name]) = Some (File content)
             \<and> nest_loop (file_lines content) [] = Inr nd"
    if kn: "(k, nd) \<in> set url_dict" for k nd
  proof -
    from kn have "k \<in> fst ` set url_dict" by force
    with keys obtain p where p: "p \<in> set (map (os_path_join dn) names)" "hit p" "stem p = k"
      by auto
    then have "\<exists>n \<in> set names. splitext_root n = k" 
      using st by auto
    from split_list_last_prop [OF this] obtain ns1 name ns2 where
      d: "names = ns1 @ name # ns2" and sk: "splitext_root name = k"
      and later: "\<forall>n \<in> set ns2. splitext_root n \<noteq> k"
      by blast
    have in_names: "name \<in> set names" "\<And>n. n \<in> set ns2 \<Longrightarrow> n \<in> set names"
      using d by auto
    have hk: "list_ex (\<lambda>s. py_in s k) sensor_list"
      using p by (simp add: hit_def)
    have l': "url_files_loop sensor_list
               (map (os_path_join dn) ns1 @ [os_path_join dn name] @ map (os_path_join dn) ns2)
               [] w = Inr (url_dict, w')"
      using l by (simp add: d)
    have h1: "list_ex (\<lambda>s. py_in s (splitext_root (os_path_basename (os_path_join dn name))))
               sensor_list"
      using st [OF in_names(1)] sk hk by (simp add: stem_def)
    have h2: "\<forall>q \<in> set (map (os_path_join dn) ns2).
        list_ex (\<lambda>s. py_in s (splitext_root (os_path_basename q))) sensor_list
        \<longrightarrow> splitext_root (os_path_basename q)
            \<noteq> splitext_root (os_path_basename (os_path_join dn name))"
      using st in_names later sk by (auto simp: stem_def)
    from url_files_loop_last_wins [OF l' h1 h2] obtain content nd' where
      c: "open_read (files w) (os_path_join dn name) = Inr content"
      and n: "nest_loop (file_lines content) [] = Inr nd'"
      and m: "map_of url_dict k = Some nd'"
      using st [OF in_names(1)] sk by (auto simp: stem_def)
    have "map_of url_dict k = Some nd"
      using dist kn by simp
    with m have "nd' = nd" by simp
    moreover have "map_of (files w) (components dir_path @ [name]) = Some (File content)"
      using c cp [OF in_names(1)] by (simp add: open_read_file)
    ultimately show ?thesis
      using d sk hk later n by blast
  qed
  show ?thesis
    using k1 v unfolding names_def by blast
qed


lemma example_listdir:
  "listdir (files config_world) (components ''/home/pi/url/'') =
     [''home_livingroom.txt'', ''notes.txt'', ''home_livingroom.conf'', ''.home_outside.txt'']"
  by (simp add: listdir_def components_def config_world_def empty_world_def)

theorem loader_returns_matching_files_witness:
  "fst ` set [(''home_livingroom'', [(''id'', ''DEF456''), (''pin'', ''6'')])] =
     {splitext_root name | name.
        name \<in> set (listdir (files config_world) (components ''/home/pi/url/''))
        \<and> hd name \<noteq> DOT
        \<and> list_ex (\<lambda>s. py_in s (splitext_root name)) [''home_livingroom'', ''home_outside'']}
   \<and> (\<exists>ns1 name ns2 content.
         filter (\<lambda>name. hd name \<noteq> DOT)
           (listdir (files config_world) (components ''/home/pi/url/'')) = ns1 @ name # ns2
         \<and> splitext_root name = ''home_livingroom''
         \<and> list_ex (\<lambda>s. py_in s ''home_livingroom'') [''home_livingroom'', ''home_outside'']
         \<and> map_of (files config_world) (components ''/home/pi/url/'' @ [name])
             = Some (File content)
         \<and> nest_loop (file_lines content) [] = Inr [(''id'', ''DEF456''), (''pin'', ''6'')])"
proof -
  have m: "\<not> has_magic ''/home/pi/url/''"
    by (simp add: has_magic_def)
  have d: "is_dir (files config_world) (components ''/home/pi/url/'')"
    by (simp add: is_dir_def components_def config_world_def empty_world_def)
  have f: "wf_names (files config_world)"
    by (simp add: wf_names_def config_world_def empty_world_def)
  note t = loader_returns_matching_files [OF m _ _ d f example_load]
  have a: "fst ` set [(''home_livingroom'', [(''id'', ''DEF456''), (''pin'', ''6'')])] =
     {splitext_root name | name.
        name \<in> set (listdir (files config_world) (components ''/home/pi/url/''))
        \<and> hd name \<noteq> DOT
        \<and> list_ex (\<lambda>s. py_in s (splitext_root name)) [''home_livingroom'', ''home_outside'']}"
    using t by simp
  have "\<forall>(k, nd) \<in> set [(''home_livingroom'', [(''id'', ''DEF456''), (''pin'', ''6'')])].
           \<exists>ns1 name ns2 content.
             filter (\<lambda>name. hd name \<noteq> DOT)
               (listdir (files config_world) (components ''/home/pi/url/'')) = ns1 @ name # ns2
             \<and> splitext_root name = k
             \<and> list_ex (\<lambda>s. py_in s k) [''home_livingroom'', ''home_outside'']
             \<and> (\<forall>n \<in> set ns2. splitext_root n \<noteq> k)
             \<and> map_of (files config_world) (components ''/home/pi/url/'' @ [name])
                 = Some (File content)
             \<and> nest_loop (file_lines content) [] = Inr nd"
    using t by simp
  then have b: "\<exists>ns1 name ns2 content.
         filter (\<lambda>name. hd name \<noteq> DOT)
           (listdir (files config_world) (components ''/home/pi/url/'')) = ns1 @ name # ns2
         \<and> splitext_root name = ''home_livingroom''
         \<and> list_ex (\<lambda>s. py_in s ''home_livingroom'') [''home_livingroom'', ''home_outside'']
         \<and> map_of (files config_world) (components ''/home/pi/url/'' @ [name])
             = Some (File content)
         \<and> nest_loop (file_lines content) [] = Inr [(''id'', ''DEF456''), (''pin'', ''6'')]"
    by (simp del: list_ex_Cons_iff py_in.simps) blast
  show ?thesis
    using a b by (rule conjI)
qed

text \<open>
  The hidden file \<^verbatim>\<open>.home_outside.txt\<close> is in the directory and its stripped name contains
  \<^verbatim>\<open>home_outside\<close>, but the mapping has no entry for it; and the two files of the living room
  sensor give one entry, with the fields of the second.
\<close>

theorem hidden_file_counterexample:
  "''.home_outside.txt'' \<in> set (listdir (files config_world) (components ''/home/pi/url/''))
   \<and> list_ex (\<lambda>s. py_in s (splitext_root ''.home_outside.txt''))
         [''home_livingroom'', ''home_outside'']
   \<and> map_sum id fst
        (open_url_files ''/home/pi/url/'' [''home_livingroom'', ''home_outside''] config_world)
       = Inr [(''home_livingroom'', [(''id'', ''DEF456''), (''pin'', ''6'')])]"
  by (simp add: example_listdir example_load splitext_root_def)

subsection \<open>The start of the program\<close>

lemma split_prefix_star:
  assumes "script_path \<noteq> []" and "last script_path \<noteq> SEP"
  shows "os_path_split (os_path_join script_path ''url'' @ ''*'') = (script_path, ''url*'')"
proof -
  have j: "os_path_join script_path ''url'' @ ''*'' = script_path @ SEP # ''url*''"
    using assms by (simp add: os_path_join_def)
  have n: "\<exists>c \<in> set script_path. c \<noteq> SEP"
    using assms by (metis last_in_set)
  have r: "dropWhile (\<lambda>c. c = SEP) (rev script_path) = rev script_path"
    using assms by (cases script_path rule: rev_cases) auto
  show ?thesis
    unfolding j by (simp add: os_path_split_def os_path_basename_def Let_def n r)
qed

text \<open>
  \<open>main\<close> places both directories below the path of the script itself, not below the
  directory of the script (\<^verbatim>\<open>os.path.dirname\<close> is missing). The script is a regular file:
  the pattern of the loader names entries of a file, nothing is scanned and the mapping is
  empty; the output directory does not exist and \<^verbatim>\<open>os.makedirs\<close>, which is outside the
  \<^verbatim>\<open>try\<close>, raises.
\<close>

lemma script_startup:
  assumes "script_is_file w"
  shows "open_url_files (os_path_join (script_file w) ''url'') sensor_list w = Inr ([], w)"
    and "open_output_file w = Inl NotADirectoryError"
    and "main start_time env n w = Inl NotADirectoryError"
proof -
  let ?cs = "components (script_file w)"
  from assms have nonempty: "script_file w \<noteq> []" and nosep: "last (script_file w) \<noteq> SEP"
    and comps: "?cs \<noteq> []"
    by (simp_all add: script_is_file_def)
  from assms obtain source where isfile: "map_of (files w) ?cs = Some (File source)"
    by (auto simp: script_is_file_def split: option.splits node.splits)
  have below: "\<not> (length ?cs < length (fst e) \<and> take (length ?cs) (fst e) = ?cs)"
    if "e \<in> set (files w)" for e
    using assms that by (simp add: script_is_file_def)
  have absent: "map_of (files w) (?cs @ [''output'']) = None"
  proof (rule ccontr)
    assume "map_of (files w) (?cs @ [''output'']) \<noteq> None"
    then obtain v where "map_of (files w) (?cs @ [''output'']) = Some v"
      by auto
    then have "(?cs @ [''output''], v) \<in> set (files w)"
      by (rule map_of_SomeD)
    from below [OF this] show False
      by simp
  qed
  have nd: "\<not> is_dir (files w) ?cs"
    using isfile comps by (simp add: is_dir_def)
  have ex: "exists (files w) ?cs"
    using isfile by (simp add: exists_def)
  have g: "glob_star (files w) (os_path_join (script_file w) ''url'') = []"
    using nd by (simp add: glob_star_def split_prefix_star [OF nonempty nosep])
  show u: "open_url_files (os_path_join (script_file w) ''url'') sensor_list w = Inr ([], w)"
    for sensor_list
    by (simp add: open_url_files_def g)
  have c: "components (os_path_join (script_file w) ''output'') = ?cs @ [''output'']"
    by (rule components_join) simp_all
  have ne: "\<not> exists (files w) (?cs @ [''output''])"
    using absent by (simp add: exists_def)
  have mk: "mkdir (files w) (?cs @ [''output'']) = Inl NotADirectoryError"
    using ne nd ex by (simp add: mkdir_def)
  have m: "makedirs (files w) (?cs @ [''output'']) = Inl NotADirectoryError"
    using comps ex mk by (simp add: makedirs_def)
  show o: "open_output_file w = Inl NotADirectoryError"
    by (simp add: open_output_file_def Let_def c ne m)
  show "main start_time env n w = Inl NotADirectoryError"
    by (simp add: main_def Let_def u o)
qed

lemma installed_script_is_file: "script_is_file installed_world"
  by (simp add: script_is_file_def installed_world_def empty_world_def has_magic_def
      components_def)



text \<open>
  Claim C5, where the code fails it. In every run of the script \<open>open_output_file\<close> raises
  \<^verbatim>\<open>NotADirectoryError\<close>: no output file is created or opened, and neither the header nor
  a data line is ever written.
\<close>

theorem output_file_never_opened:
  assumes "script_is_file w"
  shows "open_output_file w = Inl NotADirectoryError"
  using script_startup(2) [OF assms] .

theorem output_file_never_opened_witness:
  "open_output_file installed_world = Inl NotADirectoryError"
  using output_file_never_opened [OF installed_script_is_file] .

text \<open>
  Claim C10, where the code fails it. In every run of the script the failure to get the
  output file is not suppressed: \<open>open_output_file\<close> does not return \<^verbatim>\<open>None\<close>, it raises,
  and \<open>main\<close> ends with that exception, whatever the number of passes of its loop asked
  for: no pass is made, nothing is read and nothing is uploaded.
\<close>

theorem output_failure_not_suppressed:
  assumes "script_is_file w"
  shows "open_output_file w \<noteq> Inr (None, w') \<and> main start_time env n w = Inl NotADirectoryError"
  using script_startup(2,3) [OF assms] by simp

theorem output_failure_not_suppressed_witness:
  "open_output_file installed_world \<noteq> Inr (None, installed_world)
   \<and> main example_start_time (\<lambda>c. example_cycle) 2 installed_world = Inl NotADirectoryError"
  using output_failure_not_suppressed [OF installed_script_is_file,
      of installed_world example_start_time "\<lambda>c. example_cycle" 2]
  by simp

end
